theory Spec2Isabelle
  imports Main "HOL-Library.Sublist" "HOL-Library.Word"
begin

section \<open>A shallow embedding of \<open>server.c\<close>\<close>

text \<open>
  The request-handling pipeline of \<open>server.c\<close>: \<open>parse_http_request\<close>,
  \<open>get_mime_type\<close>, \<open>send_response\<close>, \<open>send_error\<close>, \<open>serve_file\<close> and
  \<open>handle_client\<close>.

  Conventions.
  \<^item> A C string is the list of its characters before the terminating NUL. A raw
    buffer (the bytes \<open>read\<close> stored) is a list of bytes that may contain NUL;
    \<open>c_str\<close> turns a terminated buffer into the C string the library functions see.
  \<^item> Each function that acts on the outside world returns the list of its actions in
    program order (\<open>event\<close>). There is one client socket, so the \<open>client_sock\<close>
    argument of the C functions is left out. The source never looks at the result of
    \<open>write\<close>, so these lists are the actions of the program whenever every \<open>write\<close>
    returns. A \<open>write\<close> to a peer that has closed raises \<open>SIGPIPE\<close> instead of
    returning: \<open>against_peer\<close> and \<open>handle_client_run\<close> say which of the actions are
    carried out then.
  \<^item> The document root is a function from a path to what \<open>open\<close>, \<open>fstat\<close> and
    \<open>read\<close> report for it.
\<close>

subsection \<open>Constants and C library functions\<close>

definition BUFFER_SIZE :: nat where
  "BUFFER_SIZE = 8192"

definition NUL :: char where
  "NUL = CHR 0x00"

definition CRLF :: string where
  "CRLF = [CHR 0x0D, CHR 0x0A]"

text \<open>The C string held by a buffer: everything before the first NUL.\<close>

definition c_str :: "string \<Rightarrow> string" where
  "c_str buf = takeWhile (\<lambda>c. c \<noteq> NUL) buf"

definition strlen :: "string \<Rightarrow> nat" where
  "strlen s = length s"

text \<open>\<open>strcmp\<close>: zero exactly on equal strings; otherwise its sign is that of the
  difference of the first two bytes that differ, read as unsigned (a string that ends
  first is the smaller one).\<close>

fun strcmp :: "string \<Rightarrow> string \<Rightarrow> int" where
  "strcmp [] [] = 0"
| "strcmp [] (y # ys) = - 1"
| "strcmp (x # xs) [] = 1"
| "strcmp (x # xs) (y # ys) =
     (if x = y then strcmp xs ys
      else if (of_char x :: nat) < of_char y then - 1 else 1)"

text \<open>\<open>strrchr s c\<close>: the suffix of \<open>s\<close> that starts at the last occurrence of \<open>c\<close>,
  \<open>None\<close> for the null pointer.\<close>

fun strrchr :: "string \<Rightarrow> char \<Rightarrow> string option" where
  "strrchr [] c = None"
| "strrchr (x # xs) c =
     (case strrchr xs c of
        Some r \<Rightarrow> Some r
      | None \<Rightarrow> if x = c then Some (x # xs) else None)"

text \<open>\<open>strstr hay needle\<close>: the suffix of \<open>hay\<close> that starts at the first occurrence
  of \<open>needle\<close>, \<open>None\<close> for the null pointer.\<close>

fun strstr :: "string \<Rightarrow> string \<Rightarrow> string option" where
  "strstr [] needle = (if needle = [] then Some [] else None)"
| "strstr (x # xs) needle =
     (if prefix needle (x # xs) then Some (x # xs) else strstr xs needle)"

text \<open>The first call \<open>strtok(s, delims)\<close>: leading delimiters are skipped; if nothing is
  left the result is the null pointer, otherwise the token runs up to the next delimiter
  or the end of the string.\<close>

definition strtok :: "string \<Rightarrow> string \<Rightarrow> string option" where
  "strtok s delims =
     (let s' = dropWhile (\<lambda>c. c \<in> set delims) s
      in if s' = [] then None else Some (takeWhile (\<lambda>c. c \<notin> set delims) s'))"

text \<open>\<open>isspace\<close> in the C locale: space, \<open>\t\<close>, \<open>\n\<close>, \<open>\v\<close>, \<open>\f\<close>, \<open>\r\<close>.\<close>

definition isspace :: "char \<Rightarrow> bool" where
  "isspace c \<longleftrightarrow>
     c = CHR 0x20 \<or> c = CHR 0x09 \<or> c = CHR 0x0A \<or> c = CHR 0x0B \<or> c = CHR 0x0C \<or> c = CHR 0x0D"

text \<open>Decimal output of \<open>%d\<close>, \<open>%ld\<close> and \<open>%zu\<close>.\<close>

definition digit_char :: "nat \<Rightarrow> char" where
  "digit_char d = ''0123456789'' ! d"

fun show_nat :: "nat \<Rightarrow> string" where
  "show_nat n = (if n < 10 then [digit_char n] else show_nat (n div 10) @ [digit_char (n mod 10)])"

declare show_nat.simps [simp del]

definition show_int :: "int \<Rightarrow> string" where
  "show_int i = (if i < 0 then CHR ''-'' # show_nat (nat (- i)) else show_nat (nat i))"

text \<open>\<open>snprintf(buf, size, ...)\<close> stores at most \<open>size - 1\<close> characters of the formatted
  text. The argument is the text already formatted.\<close>

definition snprintf :: "nat \<Rightarrow> string \<Rightarrow> string" where
  "snprintf n formatted = take (n - 1) formatted"

subsection \<open>\<open>parse_http_request\<close>\<close>

text \<open>The struct \<open>HTTPRequest\<close>. Its field \<open>method\<close> is called \<open>http_method\<close> here,
  since \<open>method\<close> is a keyword of Isabelle.\<close>

record HTTPRequest =
  http_method :: string
  path :: string
  version :: string

text \<open>One \<open>%Ns\<close> conversion of \<open>sscanf\<close>: white space is skipped; at the end of the
  input the conversion fails (\<open>None\<close>); otherwise the characters up to the next white
  space are stored, at most \<open>N\<close> of them, and scanning goes on right after the last
  character stored.\<close>

definition scan_s :: "nat \<Rightarrow> string \<Rightarrow> (string \<times> string) option" where
  "scan_s width inp =
     (let inp' = dropWhile isspace inp
      in if inp' = [] then None
         else (let field = take width (takeWhile (\<lambda>c. \<not> isspace c) inp')
               in Some (field, drop (length field) inp')))"

text \<open>\<open>sscanf(request_line, "%15s %255s %15s", req->method, req->path, req->version)\<close>:
  the result is the number of conversions stored, or \<open>EOF\<close> (\<open>-1\<close>) when the input ends
  before the first one. The white space in the format skips white space of the input,
  which the next \<open>%s\<close> skips anyway.\<close>

definition sscanf3 :: "string \<Rightarrow> HTTPRequest \<Rightarrow> int \<times> HTTPRequest" where
  "sscanf3 request_line req =
     (case scan_s 15 request_line of
        None \<Rightarrow> (- 1, req)
      | Some (m, rest1) \<Rightarrow>
          (case scan_s 255 rest1 of
             None \<Rightarrow> (1, req\<lparr>http_method := m\<rparr>)
           | Some (p, rest2) \<Rightarrow>
               (case scan_s 15 rest2 of
                  None \<Rightarrow> (2, req\<lparr>http_method := m, path := p\<rparr>)
                | Some (v, rest3) \<Rightarrow> (3, req\<lparr>http_method := m, path := p, version := v\<rparr>))))"

definition parse_http_request :: "string \<Rightarrow> HTTPRequest \<Rightarrow> int \<times> HTTPRequest" where
  "parse_http_request request_line req =
     (case sscanf3 request_line req of
        (n, req') \<Rightarrow> (if n = 3 then 0 else - 1, req'))"

subsection \<open>\<open>get_mime_type\<close>\<close>

definition get_mime_type :: "string \<Rightarrow> string" where
  "get_mime_type filename =
     (case strrchr filename (CHR ''.'') of
        None \<Rightarrow> ''text/plain''
      | Some ext \<Rightarrow>
          if strcmp ext ''.html'' = 0 then ''text/html''
          else if strcmp ext ''.css'' = 0 then ''text/css''
          else if strcmp ext ''.js'' = 0 then ''application/javascript''
          else if strcmp ext ''.json'' = 0 then ''application/json''
          else if strcmp ext ''.png'' = 0 then ''image/png''
          else if strcmp ext ''.jpg'' = 0 \<or> strcmp ext ''.jpeg'' = 0 then ''image/jpeg''
          else ''text/plain'')"

subsection \<open>\<open>send_response\<close> and \<open>send_error\<close>\<close>

datatype event =
    Open string
  | Write string
  | Close_file
  | Close_sock
  | Printf string
  | Exit int

text \<open>\<open>content\<close> is the memory at the pointer passed in; \<open>write\<close> sends the first
  \<open>content_length\<close> bytes of it.\<close>

definition send_response :: "int \<Rightarrow> string \<Rightarrow> string \<Rightarrow> string \<Rightarrow> nat \<Rightarrow> event list" where
  "send_response status_code status_text content_type content content_length =
     (let header = snprintf 512
            (''HTTP/1.1 '' @ show_int status_code @ '' '' @ status_text @ CRLF @
             ''Content-Type: '' @ content_type @ CRLF @
             ''Content-Length: '' @ show_nat content_length @ CRLF @
             ''Connection: close'' @ CRLF @
             CRLF)
      in [Write (take (strlen header) header), Write (take content_length content)])"

definition send_error :: "int \<Rightarrow> string \<Rightarrow> event list" where
  "send_error status_code message =
     (let body = snprintf 512
            (''<html><body><h1>'' @ show_int status_code @ '' '' @ message @
             ''</h1><p>'' @ message @ ''</p></body></html>'')
      in send_response status_code message ''text/html'' body (strlen body))"

subsection \<open>\<open>serve_file\<close>\<close>

text \<open>What the program observes of a file it has opened: the size \<open>fstat\<close> reports, and
  the bytes successive calls of \<open>read\<close> deliver before one of them returns 0 or less
  (at the end of the file, or \<open>-1\<close> on an error: the loop of \<open>serve_file\<close> stops on
  both). \<open>st_size\<close> is a signed 64-bit \<open>off_t\<close>, printed with \<open>%ld\<close>. For a regular
  file that nobody changes meanwhile, \<open>st_size\<close> is the length of \<open>data\<close>; for a
  directory, which \<open>open\<close> with \<open>O_RDONLY\<close> accepts, \<open>data\<close> is empty (\<open>read\<close>
  fails with \<open>EISDIR\<close>) whatever \<open>st_size\<close> is.\<close>

type_synonym off_t = "64 word"

record ofile =
  st_size :: off_t
  data :: string

text \<open>\<open>read(fd, buffer, count)\<close> on the rest of the file: the number of bytes read, the
  buffer, and what is left to read.\<close>

definition file_read :: "string \<Rightarrow> nat \<Rightarrow> int \<times> string \<times> string" where
  "file_read rest count = (int (length (take count rest)), take count rest, drop count rest)"

text \<open>The loop \<open>while ((bytes_read = read(fd, buffer, sizeof(buffer))) > 0)
  write(client_sock, buffer, bytes_read);\<close>\<close>

function stream_loop :: "string \<Rightarrow> event list" where
  "stream_loop rest =
     (case file_read rest BUFFER_SIZE of
        (bytes_read, buffer, rest') \<Rightarrow>
          if bytes_read > 0 then Write (take (nat bytes_read) buffer) # stream_loop rest'
          else [])"
  by pat_completeness auto
termination
  by (relation "measure length") (auto simp: file_read_def BUFFER_SIZE_def)

definition serve_file :: "(string \<Rightarrow> ofile option) \<Rightarrow> string \<Rightarrow> event list" where
  "serve_file fs filepath =
     (if strstr filepath ''..'' \<noteq> None then send_error 403 ''Forbidden''
      else
        (let filepath' = (if strcmp filepath ''/'' = 0 then ''/index.html'' else filepath);
             fullpath = snprintf 512 (''.'' @ filepath')
         in case fs fullpath of
              None \<Rightarrow> Open fullpath # send_error 404 ''Not Found''
            | Some f \<Rightarrow>
                (let file_size = st_size f;
                     mime_type = get_mime_type fullpath;
                     header = snprintf 512
                       (''HTTP/1.1 200 OK'' @ CRLF @
                        ''Content-Type: '' @ mime_type @ CRLF @
                        ''Content-Length: '' @ show_int (sint file_size) @ CRLF @
                        ''Connection: close'' @ CRLF @
                        CRLF)
                 in [Open fullpath, Write (take (strlen header) header)] @
                    stream_loop (data f) @ [Close_file])))"

subsection \<open>\<open>handle_client\<close>\<close>

text \<open>\<open>read(client_sock, buffer, count)\<close>: \<open>incoming\<close> is \<open>None\<close> when the call fails
  and otherwise holds the bytes the peer has sent (none at all when it has closed).\<close>

definition sock_read :: "string option \<Rightarrow> nat \<Rightarrow> int \<times> string" where
  "sock_read incoming count =
     (case incoming of
        None \<Rightarrow> (- 1, [])
      | Some bytes \<Rightarrow> (int (length (take count bytes)), take count bytes))"

text \<open>\<open>req\<close> is the content of the local variable \<open>req\<close> before it is written,
  \<open>addr\<close> the text \<open>inet_ntoa\<close> gives for the peer. The result is the list of the
  actions of the function when each of its calls of \<open>write\<close> returns; the run against
  a peer that closes early is \<open>handle_client_run\<close> below.\<close>

definition handle_client ::
  "HTTPRequest \<Rightarrow> string \<Rightarrow> (string \<Rightarrow> ofile option) \<Rightarrow> string option \<Rightarrow> event list" where
  "handle_client req addr fs incoming =
     (case sock_read incoming (BUFFER_SIZE - 1) of
        (bytes_read, buffer) \<Rightarrow>
          (if bytes_read > 0 then
             (let buffer' = take (nat bytes_read) buffer @ [NUL];
                  first_line = strtok (c_str buffer') [CHR 0x0D, CHR 0x0A]
              in case first_line of
                   None \<Rightarrow> send_error 400 ''Bad Request''
                 | Some line \<Rightarrow>
                     (case parse_http_request line req of
                        (rc, req') \<Rightarrow>
                          if rc = 0 then
                            Printf (''['' @ addr @ ''] '' @ http_method req' @ '' '' @ path req' @ [CHR 0x0A]) #
                            (if strcmp (http_method req') ''GET'' = 0 then serve_file fs (path req')
                             else send_error 501 ''Not Implemented'')
                          else send_error 400 ''Bad Request''))
           else []) @
          [Close_sock, Exit 0])"

subsection \<open>The process of \<open>handle_client\<close> and a peer that closes early\<close>





section \<open>The notions the properties are stated with\<close>

subsection \<open>The response as the client reads it\<close>

text \<open>The bytes written to the client socket, in order.\<close>

fun wire :: "event list \<Rightarrow> string" where
  "wire [] = []"
| "wire (Write bs # es) = bs @ wire es"
| "wire (e # es) = wire es"

text \<open>The paths the program tried to open.\<close>

fun opened :: "event list \<Rightarrow> string list" where
  "opened [] = []"
| "opened (Open p # es) = p # opened es"
| "opened (e # es) = opened es"

text \<open>A client splits what it receives into the status line, the header lines up to
  the empty line, and the body: everything after the empty line. Lines end with CR LF.\<close>

fun split_line :: "string \<Rightarrow> (string \<times> string) option" where
  "split_line [] = None"
| "split_line [c] = None"
| "split_line (c # d # rest) =
     (if c = CHR 0x0D \<and> d = CHR 0x0A then Some ([], rest)
      else (case split_line (d # rest) of
              None \<Rightarrow> None
            | Some (l, r) \<Rightarrow> Some (c # l, r)))"

lemma split_line_shorter: "split_line s = Some (l, r) \<Longrightarrow> length r < length s"
  by (induction s arbitrary: l rule: split_line.induct)
     (auto split: if_splits option.splits)

function parse_headers :: "string \<Rightarrow> (string list \<times> string) option" where
  "parse_headers s =
     (case split_line s of
        None \<Rightarrow> None
      | Some (l, rest) \<Rightarrow>
          if l = [] then Some ([], rest)
          else (case parse_headers rest of
                  None \<Rightarrow> None
                | Some (hs, b) \<Rightarrow> Some (l # hs, b)))"
  by pat_completeness auto
termination
  by (relation "measure length") (auto dest: split_line_shorter)

declare parse_headers.simps [simp del]

record response =
  rsp_status :: string
  rsp_headers :: "string list"
  rsp_body :: string

definition parse_response :: "string \<Rightarrow> response option" where
  "parse_response w =
     (case split_line w of
        None \<Rightarrow> None
      | Some (sl, rest) \<Rightarrow>
          (case parse_headers rest of
             None \<Rightarrow> None
           | Some (hs, b) \<Rightarrow> Some \<lparr>rsp_status = sl, rsp_headers = hs, rsp_body = b\<rparr>))"

text \<open>The status code is the second word of the status line.\<close>

definition status_code :: "response \<Rightarrow> string" where
  "status_code r =
     takeWhile (\<lambda>c. c \<noteq> CHR 0x20) (drop 1 (dropWhile (\<lambda>c. c \<noteq> CHR 0x20) (rsp_status r)))"

text \<open>The value of the first header line \<open>name: value\<close> with the given name.\<close>

definition header_field :: "string \<Rightarrow> response \<Rightarrow> string option" where
  "header_field name r =
     (case filter (prefix (name @ '': '')) (rsp_headers r) of
        [] \<Rightarrow> None
      | l # ls \<Rightarrow> Some (drop (length name + 2) l))"

text \<open>The bytes of a response with the given status line, header lines and body: what
  \<open>parse_response\<close> reads back.\<close>

definition render :: "response \<Rightarrow> string" where
  "render r =
     rsp_status r @ CRLF @ concat (map (\<lambda>h. h @ CRLF) (rsp_headers r)) @ CRLF @ rsp_body r"

text \<open>The error page of the specification for a status code and a message: content type
  \<open>text/html\<close>, and an HTML body with the code and the message in it as they are.\<close>

definition error_body :: "string \<Rightarrow> string \<Rightarrow> string" where
  "error_body code msg =
     ''<html><body><h1>'' @ code @ '' '' @ msg @ ''</h1><p>'' @ msg @ ''</p></body></html>''"

definition error_page :: "string \<Rightarrow> string \<Rightarrow> response" where
  "error_page code msg =
     \<lparr>rsp_status = ''HTTP/1.1 '' @ code @ '' '' @ msg,
      rsp_headers = [''Content-Type: text/html'',
                     ''Content-Length: '' @ show_nat (length (error_body code msg)),
                     ''Connection: close''],
      rsp_body = error_body code msg\<rparr>"

text \<open>The response that serves a file: the content type given, the size \<open>fstat\<close>
  reported as \<open>Content-Length\<close>, and the bytes read as the body.\<close>

definition file_page :: "string \<Rightarrow> ofile \<Rightarrow> response" where
  "file_page content_type f =
     \<lparr>rsp_status = ''HTTP/1.1 200 OK'',
      rsp_headers = [''Content-Type: '' @ content_type,
                     ''Content-Length: '' @ show_int (sint (st_size f)),
                     ''Connection: close''],
      rsp_body = data f\<rparr>"

text \<open>The size \<open>fstat\<close> reports is the number of bytes \<open>read\<close> delivers: a regular file
  that does not change while it is served.\<close>

definition size_agrees :: "ofile \<Rightarrow> bool" where
  "size_agrees f \<longleftrightarrow> sint (st_size f) = int (length (data f))"

subsection \<open>Runs\<close>



subsection \<open>Names for two values \<open>serve_file\<close> and \<open>handle_client\<close> compute\<close>

text \<open>The path \<open>serve_file\<close> passes to \<open>open\<close> for a request path without \<open>..\<close>
  (\<open>serve_file_missing\<close> and \<open>serve_file_found\<close> below), and the line \<open>handle_client\<close>
  passes to \<open>parse_http_request\<close> when it has received \<open>bytes\<close> (\<open>handle_client_data\<close>
  below).\<close>

definition resolve :: "string \<Rightarrow> string" where
  "resolve p = take 511 (''.'' @ (if p = ''/'' then ''/index.html'' else p))"

definition request_line :: "string \<Rightarrow> string option" where
  "request_line bytes =
     strtok (c_str (take (BUFFER_SIZE - 1) bytes @ [NUL])) [CHR 0x0D, CHR 0x0A]"

subsection \<open>Tokens of a line\<close>

text \<open>The pieces of a line between its white-space characters, and among them the
  non-empty ones: its white-space separated tokens.\<close>

fun split_ws :: "string \<Rightarrow> string list" where
  "split_ws [] = [[]]"
| "split_ws (c # cs) =
     (if isspace c then [] # split_ws cs
      else (case split_ws cs of
              [] \<Rightarrow> [[c]]
            | w # ws \<Rightarrow> (c # w) # ws))"

definition tokens :: "string \<Rightarrow> string list" where
  "tokens s = filter (\<lambda>w. w \<noteq> []) (split_ws s)"

subsection \<open>The MIME policy in the words of the specification\<close>

definition mime_table :: "(string \<times> string) list" where
  "mime_table =
     [(''html'', ''text/html''), (''css'', ''text/css''), (''js'', ''application/javascript''),
      (''json'', ''application/json''), (''png'', ''image/png''), (''jpg'', ''image/jpeg''),
      (''jpeg'', ''image/jpeg'')]"

text \<open>The substring after the last \<open>.\<close> of a path, if it has one.\<close>

definition extension :: "string \<Rightarrow> string option" where
  "extension p =
     (if CHR ''.'' \<in> set p then Some (rev (takeWhile (\<lambda>c. c \<noteq> CHR ''.'') (rev p))) else None)"

definition mime_spec :: "string \<Rightarrow> string" where
  "mime_spec p =
     (case extension p of
        None \<Rightarrow> ''text/plain''
      | Some e \<Rightarrow> (case map_of mime_table e of None \<Rightarrow> ''text/plain'' | Some t \<Rightarrow> t))"

subsection \<open>The first line in the words of the specification\<close>

text \<open>The prefix of the received bytes up to the first CR or LF.\<close>

definition first_line_spec :: "string \<Rightarrow> string" where
  "first_line_spec bytes = takeWhile (\<lambda>c. c \<noteq> CHR 0x0D \<and> c \<noteq> CHR 0x0A) bytes"

section \<open>Facts about the library functions\<close>

lemma strcmp_eq_0: "strcmp a b = 0 \<longleftrightarrow> a = b"
  by (induction a b rule: strcmp.induct) auto

lemma strstr_sublist: "strstr hay needle = None \<longleftrightarrow> \<not> sublist needle hay"
  by (induction hay) (auto simp: sublist_Cons_right)

lemma strrchr_None: "strrchr s c = None \<longleftrightarrow> c \<notin> set s"
  by (induction s) (auto split: option.splits)

lemma strrchr_absent: "c \<notin> set s \<Longrightarrow> strrchr s c = None"
  by (simp add: strrchr_None)

lemma strrchr_Some:
  "c \<in> set s \<Longrightarrow> strrchr s c = Some (c # rev (takeWhile (\<lambda>x. x \<noteq> c) (rev s)))"
proof (induction s)
  case Nil
  then show ?case by simp
next
  case (Cons x xs)
  show ?case
  proof (cases "c \<in> set xs")
    case True
    with Cons.IH show ?thesis by simp
  next
    case False
    with Cons.prems have xc: "x = c" by simp
    from False have none: "strrchr xs c = None" by (simp add: strrchr_None)
    from False have tw: "takeWhile (\<lambda>y. y \<noteq> c) (rev xs) = rev xs" by auto
    show ?thesis by (simp add: xc none takeWhile_tail tw)
  qed
qed

lemma digit_char_digit: "d < 10 \<Longrightarrow> digit_char d \<in> set ''0123456789''"
  unfolding digit_char_def by (rule nth_mem) simp

lemma show_nat_digits: "set (show_nat n) \<subseteq> set ''0123456789''"
proof (induction n rule: show_nat.induct)
  case (1 n)
  show ?case
  proof (cases "n < 10")
    case True
    then show ?thesis using digit_char_digit[of n] by (subst show_nat.simps) simp
  next
    case False
    have "n mod 10 < 10" by simp
    then have "digit_char (n mod 10) \<in> set ''0123456789''" by (rule digit_char_digit)
    then show ?thesis using False 1 by (subst show_nat.simps) simp
  qed
qed

lemma length_show_nat: "n < 10 ^ k \<Longrightarrow> 0 < k \<Longrightarrow> length (show_nat n) \<le> k"
proof (induction n arbitrary: k rule: show_nat.induct)
  case (1 n)
  show ?case
  proof (cases "n < 10")
    case True
    then show ?thesis using "1.prems" by (subst show_nat.simps) auto
  next
    case False
    then obtain k' where k: "k = Suc k'" using "1.prems" by (cases k) auto
    with False "1.prems" have "0 < k'" by (cases k') auto
    moreover from k "1.prems" have "n div 10 < 10 ^ k'" by (simp add: less_mult_imp_div_less mult.commute)
    ultimately have "length (show_nat (n div 10)) \<le> k'" using "1.IH" False by simp
    then show ?thesis using False k by (subst show_nat.simps) auto
  qed
qed

lemma get_mime_type_refines: "get_mime_type p = mime_spec p"
proof (cases "CHR ''.'' \<in> set p")
  case True
  then show ?thesis
    by (simp add: get_mime_type_def mime_spec_def extension_def strrchr_Some strcmp_eq_0
        mime_table_def)
next
  case False
  then show ?thesis
    by (simp add: get_mime_type_def mime_spec_def extension_def strrchr_absent)
qed

section \<open>The MIME resolver\<close>

text \<open>
  Claim C9. \<open>get_mime_type\<close> is a total function of the path alone: it returns what the
  table of the specification gives for the substring after the last \<open>.\<close> of the path,
  compared case-sensitively, and \<open>text/plain\<close> when the path has no \<open>.\<close> or the table
  has no entry; so \<open>a.html\<close> is \<open>text/html\<close>, \<open>a.jpeg\<close> is \<open>image/jpeg\<close>, and
  \<open>a.xyz\<close>, \<open>noext\<close> and \<open>a.HTML\<close> are \<open>text/plain\<close>.
\<close>

theorem C9_get_mime_type:
  "get_mime_type p = mime_spec p \<and>
   get_mime_type ''a.html'' = ''text/html'' \<and>
   get_mime_type ''a.jpeg'' = ''image/jpeg'' \<and>
   get_mime_type ''a.xyz'' = ''text/plain'' \<and>
   get_mime_type ''noext'' = ''text/plain'' \<and>
   get_mime_type ''a.HTML'' = ''text/plain''"
  by (simp add: get_mime_type_refines mime_spec_def extension_def mime_table_def)

section \<open>The request parser\<close>

subsection \<open>Tokens and the conversions of \<open>sscanf\<close>\<close>

lemma split_ws_unfold:
  "split_ws s =
     takeWhile (\<lambda>c. \<not> isspace c) s #
     (case dropWhile (\<lambda>c. \<not> isspace c) s of [] \<Rightarrow> [] | d # r \<Rightarrow> split_ws r)"
  by (induction s) auto

lemma tokens_Nil [simp]: "tokens [] = []"
  by (simp add: tokens_def)

lemma tokens_space: "isspace c \<Longrightarrow> tokens (c # cs) = tokens cs"
  by (simp add: tokens_def)

lemma tokens_dropWhile: "tokens (dropWhile isspace s) = tokens s"
  by (induction s) (auto simp: tokens_space)

lemma tokens_nonspace:
  assumes "\<not> isspace c"
  shows "tokens (c # cs) =
           takeWhile (\<lambda>x. \<not> isspace x) (c # cs) # tokens (dropWhile (\<lambda>x. \<not> isspace x) (c # cs))"
proof -
  have rest: "filter (\<lambda>w. w \<noteq> [])
                (case dropWhile (\<lambda>x. \<not> isspace x) cs of [] \<Rightarrow> [] | d # r \<Rightarrow> split_ws r) =
              tokens (dropWhile (\<lambda>x. \<not> isspace x) cs)"
  proof (cases "dropWhile (\<lambda>x. \<not> isspace x) cs")
    case Nil
    show ?thesis unfolding Nil by simp
  next
    case (Cons d r)
    then have "isspace d" using hd_dropWhile[of "\<lambda>x. \<not> isspace x" cs] by auto
    with Cons show ?thesis by (simp add: tokens_def)
  qed
  have "split_ws (c # cs) =
          (c # takeWhile (\<lambda>x. \<not> isspace x) cs) #
          (case dropWhile (\<lambda>x. \<not> isspace x) cs of [] \<Rightarrow> [] | d # r \<Rightarrow> split_ws r)"
    using assms by (subst split_ws_unfold) simp
  then show ?thesis using assms rest by (simp add: tokens_def)
qed

lemma tokens_unfold:
  "tokens s =
     (let s' = dropWhile isspace s
      in if s' = [] then []
         else takeWhile (\<lambda>x. \<not> isspace x) s' # tokens (dropWhile (\<lambda>x. \<not> isspace x) s'))"
proof (cases "dropWhile isspace s")
  case Nil
  have "tokens (dropWhile isspace s) = []" unfolding Nil by simp
  then have "tokens s = []" by (simp add: tokens_dropWhile)
  then show ?thesis unfolding Nil by simp
next
  case (Cons c cs)
  then have "\<not> isspace c" using hd_dropWhile[of isspace s] by auto
  then have "tokens (c # cs) =
     takeWhile (\<lambda>x. \<not> isspace x) (c # cs) # tokens (dropWhile (\<lambda>x. \<not> isspace x) (c # cs))"
    by (rule tokens_nonspace)
  then show ?thesis using Cons tokens_dropWhile[of s] by (simp add: Let_def)
qed

lemma scan_s_Nil: "tokens s = [] \<Longrightarrow> scan_s w s = None"
  by (subst (asm) tokens_unfold) (simp add: scan_s_def Let_def split: if_splits)

lemma scan_s_None_iff: "scan_s w s = None \<longleftrightarrow> tokens s = []"
  by (subst tokens_unfold) (simp add: scan_s_def Let_def)

lemma scan_s_Cons:
  assumes "tokens s = t # ts"
  shows "\<exists>rest. scan_s w s = Some (take w t, rest) \<and>
           (length t \<le> w \<longrightarrow> tokens rest = ts)"
proof -
  let ?s' = "dropWhile isspace s"
  from assms have ne: "?s' \<noteq> []"
    and t: "t = takeWhile (\<lambda>x. \<not> isspace x) ?s'"
    and ts: "ts = tokens (dropWhile (\<lambda>x. \<not> isspace x) ?s')"
    by (subst (asm) tokens_unfold, simp add: Let_def split: if_splits)+
  have "scan_s w s = Some (take w t, drop (length (take w t)) ?s')"
    using ne t by (simp add: scan_s_def Let_def)
  moreover have "length t \<le> w \<longrightarrow> tokens (drop (length (take w t)) ?s') = ts"
    using t ts by (simp add: dropWhile_eq_drop)
  ultimately show ?thesis by blast
qed

lemma scan_s_length: "scan_s w s = Some (f, rest) \<Longrightarrow> length f \<le> w"
  by (auto simp: scan_s_def Let_def split: if_splits)

lemma parse_fields_bounded:
  assumes "parse_http_request l req = (0, r)"
  shows "length (http_method r) \<le> 15 \<and> length (path r) \<le> 255 \<and> length (version r) \<le> 15"
  using assms
  by (auto simp: parse_http_request_def sscanf3_def split: option.splits prod.splits if_splits
      dest: scan_s_length)

lemma parse_no_token:
  assumes "tokens l = []"
  shows "parse_http_request l req = (- 1, req)"
  using scan_s_Nil[OF assms, of 15] by (simp add: parse_http_request_def sscanf3_def)

lemma parse_first_token:
  assumes "tokens l = M # ts"
  shows "http_method (snd (parse_http_request l req)) = take 15 M"
proof -
  from scan_s_Cons[OF assms, of 15] obtain rest where "scan_s 15 l = Some (take 15 M, rest)"
    by blast
  then show ?thesis
    by (simp add: parse_http_request_def sscanf3_def split: option.splits prod.splits)
qed

lemma parse_one_token:
  assumes "tokens l = [M]" "length M \<le> 15"
  shows "parse_http_request l req = (- 1, req\<lparr>http_method := M\<rparr>)"
proof -
  from scan_s_Cons[OF assms(1), of 15] assms(2) obtain rest
    where "scan_s 15 l = Some (M, rest)" "tokens rest = []" by auto
  then show ?thesis
    using scan_s_Nil[of rest 255] by (simp add: parse_http_request_def sscanf3_def)
qed

lemma parse_second_token:
  assumes "tokens l = M # P # ts" "length M \<le> 15"
  shows "\<exists>rest2. sscanf3 l req =
           (case scan_s 15 rest2 of
              None \<Rightarrow> (2, req\<lparr>http_method := M, path := take 255 P\<rparr>)
            | Some (v, rest3) \<Rightarrow> (3, req\<lparr>http_method := M, path := take 255 P, version := v\<rparr>)) \<and>
           (length P \<le> 255 \<longrightarrow> tokens rest2 = ts)"
proof -
  from scan_s_Cons[OF assms(1), of 15] assms(2) obtain rest1
    where 1: "scan_s 15 l = Some (M, rest1)" "tokens rest1 = P # ts" by auto
  from scan_s_Cons[OF 1(2), of 255] obtain rest2
    where 2: "scan_s 255 rest1 = Some (take 255 P, rest2)" "length P \<le> 255 \<longrightarrow> tokens rest2 = ts"
    by blast
  from 1(1) 2(1) have "sscanf3 l req =
           (case scan_s 15 rest2 of
              None \<Rightarrow> (2, req\<lparr>http_method := M, path := take 255 P\<rparr>)
            | Some (v, rest3) \<Rightarrow> (3, req\<lparr>http_method := M, path := take 255 P, version := v\<rparr>))"
    by (simp add: sscanf3_def)
  with 2(2) show ?thesis by blast
qed

lemma parse_two_tokens:
  assumes "tokens l = [M, P]" "length M \<le> 15" "length P \<le> 255"
  shows "parse_http_request l req = (- 1, req\<lparr>http_method := M, path := P\<rparr>)"
proof -
  from parse_second_token[OF assms(1,2), of req] assms(3) obtain rest2
    where "sscanf3 l req =
           (case scan_s 15 rest2 of
              None \<Rightarrow> (2, req\<lparr>http_method := M, path := take 255 P\<rparr>)
            | Some (v, rest3) \<Rightarrow> (3, req\<lparr>http_method := M, path := take 255 P, version := v\<rparr>))"
      and "tokens rest2 = []" by auto
  then show ?thesis
    using scan_s_Nil[of rest2 15] assms(3) by (simp add: parse_http_request_def)
qed

lemma parse_three_tokens:
  assumes "tokens l = M # P # V # ts" "length M \<le> 15" "length P \<le> 255"
  shows "parse_http_request l req = (0, \<lparr>http_method = M, path = P, version = take 15 V\<rparr>)"
proof -
  from parse_second_token[OF assms(1,2), of req] assms(3) obtain rest2
    where s: "sscanf3 l req =
           (case scan_s 15 rest2 of
              None \<Rightarrow> (2, req\<lparr>http_method := M, path := take 255 P\<rparr>)
            | Some (v, rest3) \<Rightarrow> (3, req\<lparr>http_method := M, path := take 255 P, version := v\<rparr>))"
      and "tokens rest2 = V # ts" by auto
  from scan_s_Cons[OF this(2), of 15] obtain rest3 where "scan_s 15 rest2 = Some (take 15 V, rest3)"
    by blast
  with s assms(3) show ?thesis by (simp add: parse_http_request_def)
qed

lemma parse_path_token:
  assumes "tokens l = M # P # ts" "length M \<le> 15"
  shows "path (snd (parse_http_request l req)) = take 255 P"
proof -
  from parse_second_token[OF assms, of req] obtain rest2
    where "sscanf3 l req =
           (case scan_s 15 rest2 of
              None \<Rightarrow> (2, req\<lparr>http_method := M, path := take 255 P\<rparr>)
            | Some (v, rest3) \<Rightarrow> (3, req\<lparr>http_method := M, path := take 255 P, version := v\<rparr>))"
    by blast
  then show ?thesis by (simp add: parse_http_request_def split: option.splits)
qed

subsection \<open>Claims about \<open>parse_http_request\<close>\<close>

text \<open>
  Claim C3, as the code has it. For every line whose first three white-space separated
  tokens \<open>M\<close>, \<open>P\<close>, \<open>V\<close> are at most 15, 255 and 15 characters long, the parser
  succeeds (returns 0) with \<open>method = M\<close>, \<open>path = P\<close>, \<open>version = V\<close>. For every line
  with fewer than three tokens, each within the limit of the field it goes to, the
  parser fails (returns \<open>-1\<close>); the fields converted before the failure are stored in
  the caller's struct and the others are left as they were.
\<close>

theorem C3_parse_tokens_within_limits:
  "(tokens l = M # P # V # ts \<and> length M \<le> 15 \<and> length P \<le> 255 \<and> length V \<le> 15 \<longrightarrow>
      parse_http_request l req = (0, \<lparr>http_method = M, path = P, version = V\<rparr>)) \<and>
   (tokens l = [] \<longrightarrow> parse_http_request l req = (- 1, req)) \<and>
   (tokens l = [M] \<and> length M \<le> 15 \<longrightarrow>
      parse_http_request l req = (- 1, req\<lparr>http_method := M\<rparr>)) \<and>
   (tokens l = [M, P] \<and> length M \<le> 15 \<and> length P \<le> 255 \<longrightarrow>
      parse_http_request l req = (- 1, req\<lparr>http_method := M, path := P\<rparr>))"
  using parse_three_tokens[of l M P V ts req] parse_no_token[of l req]
    parse_one_token[of l M req] parse_two_tokens[of l M P req]
  by simp

text \<open>
  Instances of claim C3: a request line of three tokens, and one of two.
\<close>

theorem C3_parse_tokens_within_limits_witness:
  "tokens ''GET /index.html HTTP/1.1'' = [''GET'', ''/index.html'', ''HTTP/1.1''] \<and>
   parse_http_request ''GET /index.html HTTP/1.1'' \<lparr>http_method = [], path = [], version = []\<rparr> =
     (0, \<lparr>http_method = ''GET'', path = ''/index.html'', version = ''HTTP/1.1''\<rparr>) \<and>
   tokens ''GET /x'' = [''GET'', ''/x''] \<and>
   parse_http_request ''GET /x'' \<lparr>http_method = [], path = [], version = []\<rparr> =
     (- 1, \<lparr>http_method = ''GET'', path = ''/x'', version = []\<rparr>)"
proof -
  have t3: "tokens ''GET /index.html HTTP/1.1'' = [''GET'', ''/index.html'', ''HTTP/1.1'']"
    by (simp add: tokens_def isspace_def)
  have t2: "tokens ''GET /x'' = [''GET'', ''/x'']"
    by (simp add: tokens_def isspace_def)
  show ?thesis
    using t3 t2
      C3_parse_tokens_within_limits[of "''GET /index.html HTTP/1.1''" "''GET''" "''/index.html''"
        "''HTTP/1.1''" "[]" "\<lparr>http_method = [], path = [], version = []\<rparr>"]
      C3_parse_tokens_within_limits[of "''GET /x''" "''GET''" "''/x''" "[]" "[]"
        "\<lparr>http_method = [], path = [], version = []\<rparr>"]
    by simp
qed

text \<open>
  Claim C3 as stated fails: a line of two tokens is parsed with success when its first
  token is longer than 15 characters. \<open>%15s\<close> stops after 15 characters and \<open>%255s\<close>
  goes on with the rest of the same token.
\<close>

theorem C3_two_tokens_accepted_counterexample:
  "tokens ''BASELINE-CONTROL /x'' = [''BASELINE-CONTROL'', ''/x''] \<and>
   parse_http_request ''BASELINE-CONTROL /x'' \<lparr>http_method = [], path = [], version = []\<rparr> =
     (0, \<lparr>http_method = ''BASELINE-CONTRO'', path = ''L'', version = ''/x''\<rparr>)"
  by (simp add: tokens_def isspace_def parse_http_request_def sscanf3_def scan_s_def)

text \<open>
  Claim C8, as the code has it. After a successful parse no field is longer than its
  limit (15, 255, 15). The method is always the first token cut to its first 15
  characters; when the first token is within its limit, the path is the second token
  cut to 255 characters; when the first two tokens are within their limits, the parse
  succeeds and the version is the third token cut to 15 characters. So a token longer
  than its limit is cut at the limit when the tokens before it are within theirs.
\<close>

theorem C8_parse_truncation:
  "(fst (parse_http_request l req) = 0 \<longrightarrow>
      length (http_method (snd (parse_http_request l req))) \<le> 15 \<and>
      length (path (snd (parse_http_request l req))) \<le> 255 \<and>
      length (version (snd (parse_http_request l req))) \<le> 15) \<and>
   (tokens l = M # ts \<longrightarrow> http_method (snd (parse_http_request l req)) = take 15 M) \<and>
   (tokens l = M # P # ts' \<and> length M \<le> 15 \<longrightarrow>
      path (snd (parse_http_request l req)) = take 255 P) \<and>
   (tokens l = M # P # V # ts'' \<and> length M \<le> 15 \<and> length P \<le> 255 \<longrightarrow>
      parse_http_request l req = (0, \<lparr>http_method = M, path = P, version = take 15 V\<rparr>))"
  using parse_fields_bounded[of l req "snd (parse_http_request l req)"]
    parse_first_token[of l M ts req] parse_path_token[of l M P ts' req]
    parse_three_tokens[of l M P V ts'' req]
  by (cases "parse_http_request l req") simp

text \<open>
  An instance of claim C8: a third token of 25 characters is cut to its first 15.
\<close>

theorem C8_parse_truncation_witness:
  "tokens ''GET /index.html HTTP/1.1-with-a-long-tail'' =
     [''GET'', ''/index.html'', ''HTTP/1.1-with-a-long-tail''] \<and>
   parse_http_request ''GET /index.html HTTP/1.1-with-a-long-tail''
       \<lparr>http_method = [], path = [], version = []\<rparr> =
     (0, \<lparr>http_method = ''GET'', path = ''/index.html'', version = ''HTTP/1.1-with-a''\<rparr>)"
proof -
  have t: "tokens ''GET /index.html HTTP/1.1-with-a-long-tail'' =
     [''GET'', ''/index.html'', ''HTTP/1.1-with-a-long-tail'']"
    by (simp add: tokens_def isspace_def)
  show ?thesis
    using t C8_parse_truncation[of "''GET /index.html HTTP/1.1-with-a-long-tail''"
        "\<lparr>http_method = [], path = [], version = []\<rparr>" "''GET''"
        "[''/index.html'', ''HTTP/1.1-with-a-long-tail'']" "''/index.html''"
        "[''HTTP/1.1-with-a-long-tail'']" "''HTTP/1.1-with-a-long-tail''" "[]"]
    by simp
qed

text \<open>
  Claim C8 as stated fails: once a token is longer than its limit, the following fields
  do not hold the second and third tokens. Here the path is the last character of the
  first token and the version is the second token.
\<close>

theorem C8_long_token_spills_counterexample:
  "tokens ''BASELINE-CONTROL /x HTTP/1.1'' = [''BASELINE-CONTROL'', ''/x'', ''HTTP/1.1''] \<and>
   parse_http_request ''BASELINE-CONTROL /x HTTP/1.1''
       \<lparr>http_method = [], path = [], version = []\<rparr> =
     (0, \<lparr>http_method = ''BASELINE-CONTRO'', path = ''L'', version = ''/x''\<rparr>)"
  by (simp add: tokens_def isspace_def parse_http_request_def sscanf3_def scan_s_def)

section \<open>Responses\<close>

subsection \<open>Reading back what was written\<close>

lemma split_line_append:
  "CHR 0x0D \<notin> set l \<Longrightarrow> split_line (l @ CHR 0x0D # CHR 0x0A # rest) = Some (l, rest)"
proof (induction l)
  case Nil
  then show ?case by simp
next
  case (Cons c l)
  then show ?case by (cases l) auto
qed

lemma parse_headers_lines:
  assumes "\<forall>h \<in> set hs. h \<noteq> [] \<and> CHR 0x0D \<notin> set h"
  shows "parse_headers (concat (map (\<lambda>h. h @ CRLF) hs) @ CRLF @ b) = Some (hs, b)"
  using assms
proof (induction hs)
  case Nil
  then show ?case by (simp add: parse_headers.simps CRLF_def)
next
  case (Cons h hs)
  then have "split_line (h @ CHR 0x0D # CHR 0x0A # concat (map (\<lambda>h. h @ CRLF) hs) @ CRLF @ b) =
      Some (h, concat (map (\<lambda>h. h @ CRLF) hs) @ CRLF @ b)"
    by (simp add: split_line_append)
  with Cons show ?case
    by (subst parse_headers.simps) (simp add: CRLF_def)
qed

lemma parse_response_render:
  assumes "CHR 0x0D \<notin> set (rsp_status r)"
    and "\<forall>h \<in> set (rsp_headers r). h \<noteq> [] \<and> CHR 0x0D \<notin> set h"
  shows "parse_response (render r) = Some r"
proof -
  have "split_line (render r) =
      Some (rsp_status r, concat (map (\<lambda>h. h @ CRLF) (rsp_headers r)) @ CRLF @ rsp_body r)"
    using assms(1) split_line_append[of "rsp_status r"] by (simp add: render_def CRLF_def)
  then show ?thesis
    using parse_headers_lines[OF assms(2)] by (simp add: parse_response_def)
qed

lemma wire_append: "wire (a @ b) = wire a @ wire b"
  by (induction a rule: wire.induct) auto

lemma opened_append: "opened (a @ b) = opened a @ opened b"
  by (induction a rule: opened.induct) auto

lemma stream_loop_Nil: "stream_loop [] = []"
  by (simp add: file_read_def)

lemma stream_loop_Cons:
  "stream_loop (c # cs) =
     Write (take BUFFER_SIZE (c # cs)) # stream_loop (drop BUFFER_SIZE (c # cs))"
  by (subst stream_loop.simps) (simp add: file_read_def BUFFER_SIZE_def)

declare stream_loop.simps [simp del]

lemma wire_stream_loop: "wire (stream_loop d) = d"
proof (induction "length d" arbitrary: d rule: less_induct)
  case less
  show ?case
  proof (cases d)
    case Nil
    then show ?thesis by (simp add: stream_loop_Nil)
  next
    case (Cons c cs)
    have "length (drop BUFFER_SIZE d) < length d"
      using Cons by (simp add: BUFFER_SIZE_def)
    then have "wire (stream_loop (drop BUFFER_SIZE d)) = drop BUFFER_SIZE d"
      by (rule less)
    then have "wire (stream_loop d) = take BUFFER_SIZE d @ drop BUFFER_SIZE d"
      unfolding Cons stream_loop_Cons by simp
    then show ?thesis by simp
  qed
qed

lemma stream_loop_only_writes: "e \<in> set (stream_loop d) \<Longrightarrow> \<exists>bs. e = Write bs"
proof (induction "length d" arbitrary: d rule: less_induct)
  case less
  show ?case
  proof (cases d)
    case Nil
    with less.prems show ?thesis by (simp add: stream_loop_Nil)
  next
    case (Cons c cs)
    have "length (drop BUFFER_SIZE d) < length d"
      using Cons by (simp add: BUFFER_SIZE_def)
    then have "e \<in> set (stream_loop (drop BUFFER_SIZE d)) \<Longrightarrow> \<exists>bs. e = Write bs"
      by (rule less.hyps)
    moreover have "e = Write (take BUFFER_SIZE d) \<or> e \<in> set (stream_loop (drop BUFFER_SIZE d))"
      using less.prems unfolding Cons stream_loop_Cons by simp
    ultimately show ?thesis by blast
  qed
qed


lemma send_error_400:
  "send_error 400 ''Bad Request'' =
     [Write (render \<lparr>rsp_status = ''HTTP/1.1 400 Bad Request'',
        rsp_headers = [''Content-Type: text/html'', ''Content-Length: 68'', ''Connection: close''],
        rsp_body = []\<rparr>),
      Write ''<html><body><h1>400 Bad Request</h1><p>Bad Request</p></body></html>'']"
  by code_simp

lemma send_error_403:
  "send_error 403 ''Forbidden'' =
     [Write (render \<lparr>rsp_status = ''HTTP/1.1 403 Forbidden'',
        rsp_headers = [''Content-Type: text/html'', ''Content-Length: 64'', ''Connection: close''],
        rsp_body = []\<rparr>),
      Write ''<html><body><h1>403 Forbidden</h1><p>Forbidden</p></body></html>'']"
  by code_simp

lemma send_error_404:
  "send_error 404 ''Not Found'' =
     [Write (render \<lparr>rsp_status = ''HTTP/1.1 404 Not Found'',
        rsp_headers = [''Content-Type: text/html'', ''Content-Length: 64'', ''Connection: close''],
        rsp_body = []\<rparr>),
      Write ''<html><body><h1>404 Not Found</h1><p>Not Found</p></body></html>'']"
  by code_simp


lemma get_mime_type_cases:
  "get_mime_type p \<in> {''text/plain'', ''text/html'', ''text/css'', ''application/javascript'',
      ''application/json'', ''image/png'', ''image/jpeg''}"
  by (simp add: get_mime_type_def split: option.splits)

lemma get_mime_type_length: "length (get_mime_type p) \<le> 22"
  using get_mime_type_cases[of p] by auto

lemma get_mime_type_no_CR: "CHR 0x0D \<notin> set (get_mime_type p)"
  using get_mime_type_cases[of p] by auto

lemma show_int_no_CR: "CHR 0x0D \<notin> set (show_int i)"
  using show_nat_digits[of "nat i"] show_nat_digits[of "nat (- i)"]
  by (auto simp: show_int_def)

lemma show_nat_no_CR: "CHR 0x0D \<notin> set (show_nat n)"
  using show_nat_digits[of n] by auto

lemma length_show_off_t: "length (show_int (sint (w :: off_t))) \<le> 20"
proof -
  have lo: "- (2 ^ 63) \<le> sint w" using sint_ge[of w] by simp
  have hi: "sint w < 2 ^ 63" using sint_lt[of w] by simp
  show ?thesis
  proof (cases "sint w < 0")
    case True
    then have "nat (- sint w) < 10 ^ 19" using lo by simp
    then have "length (show_nat (nat (- sint w))) \<le> 19" by (rule length_show_nat) simp
    with True show ?thesis by (simp add: show_int_def)
  next
    case False
    then have "nat (sint w) < 10 ^ 19" using hi by simp
    then have "length (show_nat (nat (sint w))) \<le> 19" by (rule length_show_nat) simp
    with False show ?thesis by (simp add: show_int_def)
  qed
qed

subsection \<open>What \<open>serve_file\<close> and \<open>handle_client\<close> do, case by case\<close>

lemma render_body:
  "render \<lparr>rsp_status = s, rsp_headers = hs, rsp_body = []\<rparr> @ b =
   render \<lparr>rsp_status = s, rsp_headers = hs, rsp_body = b\<rparr>"
  by (simp add: render_def)

lemma header_fits:
  assumes "length a \<le> 22" "length b \<le> 20"
  shows "length (''HTTP/1.1 200 OK'' @ CRLF @ ''Content-Type: '' @ a @ CRLF @
           ''Content-Length: '' @ b @ CRLF @ ''Connection: close'' @ CRLF @ CRLF) \<le> 511"
  using assms by (simp add: CRLF_def)

lemma serve_file_forbidden:
  "sublist ''..'' p \<Longrightarrow> serve_file fs p = send_error 403 ''Forbidden''"
  by (simp add: serve_file_def strstr_sublist)


lemma serve_file_unfold:
  assumes "\<not> sublist ''..'' p"
  shows "serve_file fs p =
     (case fs (resolve p) of
        None \<Rightarrow> Open (resolve p) # send_error 404 ''Not Found''
      | Some f \<Rightarrow>
          [Open (resolve p),
           Write (take 511 (''HTTP/1.1 200 OK'' @ CRLF @
                    ''Content-Type: '' @ get_mime_type (resolve p) @ CRLF @
                    ''Content-Length: '' @ show_int (sint (st_size f)) @ CRLF @
                    ''Connection: close'' @ CRLF @ CRLF))] @
          stream_loop (data f) @ [Close_file])"
proof -
  have no: "strstr p ''..'' = None" using assms by (simp add: strstr_sublist)
  have snp: "\<And>x. snprintf 512 x = take 511 x" by (simp add: snprintf_def)
  have full: "take 511 (''.'' @ (if strcmp p ''/'' = 0 then ''/index.html'' else p)) = resolve p"
    by (simp add: resolve_def strcmp_eq_0)
  have tk: "\<And>x. take (strlen x) x = x" by (simp add: strlen_def)
  show ?thesis
    unfolding serve_file_def Let_def snp full tk no
    by (simp only: simp_thms if_False)
qed


lemma serve_file_missing:
  assumes "\<not> sublist ''..'' p" "fs (resolve p) = None"
  shows "serve_file fs p = Open (resolve p) # send_error 404 ''Not Found''"
  unfolding serve_file_unfold[OF assms(1)] assms(2) by simp

lemma serve_file_found:
  assumes "\<not> sublist ''..'' p" "fs (resolve p) = Some f"
  shows "serve_file fs p =
     [Open (resolve p),
      Write (render \<lparr>rsp_status = ''HTTP/1.1 200 OK'',
        rsp_headers = [''Content-Type: '' @ get_mime_type (resolve p),
                       ''Content-Length: '' @ show_int (sint (st_size f)),
                       ''Connection: close''],
        rsp_body = []\<rparr>)] @
     stream_loop (data f) @ [Close_file]"
proof -
  define h where "h = ''HTTP/1.1 200 OK'' @ CRLF @
                    ''Content-Type: '' @ get_mime_type (resolve p) @ CRLF @
                    ''Content-Length: '' @ show_int (sint (st_size f)) @ CRLF @
                    ''Connection: close'' @ CRLF @ CRLF"
  have "length h \<le> 511"
    unfolding h_def by (rule header_fits) (rule get_mime_type_length, rule length_show_off_t)
  then have fit: "take 511 h = h" by (rule take_all)
  have r: "render \<lparr>rsp_status = ''HTTP/1.1 200 OK'',
        rsp_headers = [''Content-Type: '' @ get_mime_type (resolve p),
                       ''Content-Length: '' @ show_int (sint (st_size f)),
                       ''Connection: close''],
        rsp_body = []\<rparr> = h"
    by (simp add: render_def h_def)
  have "serve_file fs p = [Open (resolve p), Write (take 511 h)] @ stream_loop (data f) @ [Close_file]"
    unfolding serve_file_unfold[OF assms(1)] assms(2) h_def by simp
  then show ?thesis unfolding fit r .
qed

lemma handle_client_no_data:
  "incoming = None \<or> incoming = Some [] \<Longrightarrow>
   handle_client req addr fs incoming = [Close_sock, Exit 0]"
  by (auto simp: handle_client_def sock_read_def)

lemma handle_client_data:
  assumes "bytes \<noteq> []"
  shows "handle_client req addr fs (Some bytes) =
     (case request_line bytes of
        None \<Rightarrow> send_error 400 ''Bad Request''
      | Some line \<Rightarrow>
          (case parse_http_request line req of
             (rc, r) \<Rightarrow>
               if rc = 0 then
                 Printf (''['' @ addr @ ''] '' @ http_method r @ '' '' @ path r @ [CHR 0x0A]) #
                 (if http_method r = ''GET'' then serve_file fs (path r)
                  else send_error 501 ''Not Implemented'')
               else send_error 400 ''Bad Request'')) @
     [Close_sock, Exit 0]"
proof -
  define buf where "buf = take (BUFFER_SIZE - 1) bytes"
  have sr: "sock_read (Some bytes) (BUFFER_SIZE - 1) = (int (length buf), buf)"
    by (simp add: sock_read_def buf_def)
  have pos: "0 < int (length buf)"
    using assms by (cases bytes) (simp_all add: buf_def BUFFER_SIZE_def)
  have tk: "take (nat (int (length buf))) buf = buf" by simp
  have rl: "request_line bytes = strtok (c_str (buf @ [NUL])) [CHR 0x0D, CHR 0x0A]"
    by (simp add: request_line_def buf_def)
  show ?thesis
    unfolding handle_client_def sr rl prod.case Let_def tk
    using pos by (simp add: strcmp_eq_0 split: option.splits prod.splits)
qed

subsection \<open>The responses the client reads\<close>

lemma response_400:
  "parse_response (wire (send_error 400 ''Bad Request'')) = Some (error_page ''400'' ''Bad Request'')"
  by code_simp

lemma response_403:
  "parse_response (wire (send_error 403 ''Forbidden'')) = Some (error_page ''403'' ''Forbidden'')"
  by code_simp

lemma response_404:
  "parse_response (wire (send_error 404 ''Not Found'')) = Some (error_page ''404'' ''Not Found'')"
  by code_simp

lemma response_501:
  "parse_response (wire (send_error 501 ''Not Implemented'')) =
     Some (error_page ''501'' ''Not Implemented'')"
  by code_simp

lemma response_file:
  assumes "\<not> sublist ''..'' p" "fs (resolve p) = Some f"
  shows "parse_response (wire (serve_file fs p)) = Some (file_page (get_mime_type (resolve p)) f)"
proof -
  have "wire (serve_file fs p) = render (file_page (get_mime_type (resolve p)) f)"
    using serve_file_found[of p fs f] assms
    by (simp add: wire_append wire_stream_loop render_body file_page_def)
  moreover have "parse_response (render (file_page (get_mime_type (resolve p)) f)) =
      Some (file_page (get_mime_type (resolve p)) f)"
    by (rule parse_response_render)
       (simp_all add: file_page_def get_mime_type_no_CR show_int_no_CR)
  ultimately show ?thesis by simp
qed

lemma status_code_error_page:
  "CHR 0x20 \<notin> set code \<Longrightarrow> status_code (error_page code msg) = code"
  by (auto simp: status_code_def error_page_def takeWhile_tail)

lemma status_code_file_page: "status_code (file_page t f) = ''200''"
  by (simp add: status_code_def file_page_def)


lemma content_type_error_page:
  "header_field ''Content-Type'' (error_page code msg) = Some ''text/html''"
  by (simp add: header_field_def error_page_def)

lemma content_length_file_page:
  "header_field ''Content-Length'' (file_page t f) = Some (show_int (sint (st_size f)))"
  by (simp add: header_field_def file_page_def)

lemma content_type_file_page:
  "header_field ''Content-Type'' (file_page t f) = Some t"
  by (simp add: header_field_def file_page_def)

subsection \<open>The branches of \<open>handle_client\<close>\<close>

lemma opened_only_writes: "(\<And>e. e \<in> set es \<Longrightarrow> \<exists>bs. e = Write bs) \<Longrightarrow> opened es = []"
proof (induction es)
  case Nil
  then show ?case by simp
next
  case (Cons e es)
  then obtain bs where "e = Write bs" by auto
  with Cons show ?case by simp
qed

lemma opened_stream_loop: "opened (stream_loop d) = []"
  by (rule opened_only_writes) (rule stream_loop_only_writes)

lemma opened_serve_file_found:
  assumes "\<not> sublist ''..'' p" "fs (resolve p) = Some f"
  shows "opened (serve_file fs p) = [resolve p]"
  using serve_file_found[of p fs f] assms by (simp add: opened_append opened_stream_loop)

lemma handle_client_cases:
  obtains
    (no_data) "incoming = None \<or> incoming = Some []"
      "handle_client req addr fs incoming = [Close_sock, Exit 0]"
  | (bad_request) bytes where "incoming = Some bytes" "bytes \<noteq> []"
      "request_line bytes = None \<or>
       (\<exists>line. request_line bytes = Some line \<and> fst (parse_http_request line req) \<noteq> 0)"
      "handle_client req addr fs incoming = send_error 400 ''Bad Request'' @ [Close_sock, Exit 0]"
  | (not_implemented) bytes line r where "incoming = Some bytes" "bytes \<noteq> []"
      "request_line bytes = Some line" "parse_http_request line req = (0, r)"
      "http_method r \<noteq> ''GET''"
      "handle_client req addr fs incoming =
         Printf (''['' @ addr @ ''] '' @ http_method r @ '' '' @ path r @ [CHR 0x0A]) #
         send_error 501 ''Not Implemented'' @ [Close_sock, Exit 0]"
  | (forbidden) bytes line r where "incoming = Some bytes" "bytes \<noteq> []"
      "request_line bytes = Some line" "parse_http_request line req = (0, r)"
      "http_method r = ''GET''" "sublist ''..'' (path r)"
      "handle_client req addr fs incoming =
         Printf (''['' @ addr @ ''] '' @ http_method r @ '' '' @ path r @ [CHR 0x0A]) #
         send_error 403 ''Forbidden'' @ [Close_sock, Exit 0]"
  | (not_found) bytes line r where "incoming = Some bytes" "bytes \<noteq> []"
      "request_line bytes = Some line" "parse_http_request line req = (0, r)"
      "http_method r = ''GET''" "\<not> sublist ''..'' (path r)" "fs (resolve (path r)) = None"
      "handle_client req addr fs incoming =
         Printf (''['' @ addr @ ''] '' @ http_method r @ '' '' @ path r @ [CHR 0x0A]) #
         Open (resolve (path r)) # send_error 404 ''Not Found'' @ [Close_sock, Exit 0]"
  | (served) bytes line r f where "incoming = Some bytes" "bytes \<noteq> []"
      "request_line bytes = Some line" "parse_http_request line req = (0, r)"
      "http_method r = ''GET''" "\<not> sublist ''..'' (path r)" "fs (resolve (path r)) = Some f"
      "handle_client req addr fs incoming =
         Printf (''['' @ addr @ ''] '' @ http_method r @ '' '' @ path r @ [CHR 0x0A]) #
         serve_file fs (path r) @ [Close_sock, Exit 0]"
      "parse_response (wire (serve_file fs (path r))) =
         Some (file_page (get_mime_type (resolve (path r))) f)"
      "opened (serve_file fs (path r)) = [resolve (path r)]"
proof (cases "incoming = None \<or> incoming = Some []")
  case True
  then show ?thesis using no_data handle_client_no_data by blast
next
  case False
  then obtain bytes where b: "incoming = Some bytes" "bytes \<noteq> []" by auto
  note hc = handle_client_data[OF b(2), of req addr fs]
  show ?thesis
  proof (cases "request_line bytes")
    case None
    with hc b show ?thesis using bad_request by simp
  next
    case (Some line)
    obtain rc r where p: "parse_http_request line req = (rc, r)" by (cases "parse_http_request line req")
    show ?thesis
    proof (cases "rc = 0")
      case False
      with hc b Some p show ?thesis using bad_request[of bytes] by simp
    next
      case rc: True
      show ?thesis
      proof (cases "http_method r = ''GET''")
        case False
        with hc b Some p rc show ?thesis using not_implemented[of bytes line r] by simp
      next
        case get: True
        show ?thesis
        proof (cases "sublist ''..'' (path r)")
          case True
          with hc b Some p rc get show ?thesis
            using forbidden[of bytes line r] by (simp add: serve_file_forbidden)
        next
          case nodots: False
          show ?thesis
          proof (cases "fs (resolve (path r))")
            case None
            with hc b Some p rc get nodots show ?thesis
              using not_found[of bytes line r] by (simp add: serve_file_missing)
          next
            case (Some f)
            have "opened (serve_file fs (path r)) = [resolve (path r)]"
              using nodots Some by (rule opened_serve_file_found)
            with hc b \<open>request_line bytes = Some line\<close> p rc get nodots Some show ?thesis
              using served[of bytes line r f] response_file[of "path r" fs f] by simp
          qed
        qed
      qed
    qed
  qed
qed

section \<open>The file server and the connection handler\<close>

lemma wire_closing [simp]: "wire (es @ [Close_sock, Exit 0]) = wire es"
  by (simp add: wire_append)

lemma opened_closing [simp]: "opened (es @ [Close_sock, Exit 0]) = opened es"
  by (simp add: opened_append)

lemma opened_send_error [simp]: "opened (send_error c m) = []"
  by (simp add: send_error_def send_response_def Let_def)

lemma wire_serve_file_forbidden:
  "sublist ''..'' p \<Longrightarrow>
   parse_response (wire (serve_file fs p)) = Some (error_page ''403'' ''Forbidden'')"
  by (simp add: serve_file_forbidden response_403)

lemma wire_serve_file_missing:
  "\<not> sublist ''..'' p \<Longrightarrow> fs (resolve p) = None \<Longrightarrow>
   parse_response (wire (serve_file fs p)) = Some (error_page ''404'' ''Not Found'')"
  by (simp add: serve_file_missing response_404)

lemma sublist_dotdot_example: "sublist ''..'' ''/../etc/passwd''"
  by code_simp

lemma no_dotdot_example: "\<not> sublist ''..'' ''/''"
  by code_simp

text \<open>
  Claim C1. For every request path that contains \<open>..\<close> anywhere, \<open>serve_file\<close> does
  exactly what \<open>send_error(403, "Forbidden")\<close> does, whatever the document root holds: it
  opens no file, and the client reads the 403 error page. (A path with \<open>..\<close> in it is
  not \<open>/\<close>, and the test comes first in the function, before the default document
  and before \<open>open\<close>.)
\<close>

theorem C1_dotdot_forbidden:
  "sublist ''..'' p \<Longrightarrow>
     serve_file fs p = send_error 403 ''Forbidden'' \<and>
     opened (serve_file fs p) = [] \<and>
     parse_response (wire (serve_file fs p)) = Some (error_page ''403'' ''Forbidden'') \<and>
     status_code (error_page ''403'' ''Forbidden'') = ''403''"
  by (simp add: serve_file_forbidden response_403 status_code_error_page)

text \<open>
  An instance of claim C1: every path of the document root exists, and
  \<open>/../etc/passwd\<close> is refused.
\<close>

theorem C1_dotdot_forbidden_witness:
  "sublist ''..'' ''/../etc/passwd'' \<and>
   serve_file (\<lambda>q. Some \<lparr>st_size = 3, data = ''abc''\<rparr>) ''/../etc/passwd'' =
     send_error 403 ''Forbidden'' \<and>
   opened (serve_file (\<lambda>q. Some \<lparr>st_size = 3, data = ''abc''\<rparr>) ''/../etc/passwd'') = [] \<and>
   parse_response (wire (serve_file (\<lambda>q. Some \<lparr>st_size = 3, data = ''abc''\<rparr>) ''/../etc/passwd'')) =
     Some (error_page ''403'' ''Forbidden'')"
proof -
  have h: "sublist ''..'' ''/../etc/passwd''" by code_simp
  show ?thesis
    using h C1_dotdot_forbidden[OF h, of "\<lambda>q. Some \<lparr>st_size = 3, data = ''abc''\<rparr>"] by blast
qed


lemma resolve_root: "resolve ''/'' = ''./index.html''"
  by (simp add: resolve_def)

lemma resolve_short: "p \<noteq> ''/'' \<Longrightarrow> length p \<le> 510 \<Longrightarrow> resolve p = ''.'' @ p"
  by (simp add: resolve_def)

lemma size_agrees_show: "size_agrees f \<Longrightarrow> show_int (sint (st_size f)) = show_nat (length (data f))"
  by (simp add: size_agrees_def show_int_def)

text \<open>
  Claim C4. For a request path without \<open>..\<close>, \<open>serve_file\<close> opens the path \<open>resolve p\<close>:
  \<open>./index.html\<close> for the path \<open>/\<close>, and otherwise the path with \<open>.\<close> before it (for
  paths of at most 510 characters, as all paths of parsed requests are). If it cannot
  be opened, the client reads the 404 error page. Otherwise that file is the only one
  opened and the client reads a response with status 200, the content type
  \<open>get_mime_type\<close> gives for the resolved path, the size of the file as \<open>fstat\<close> reports
  it as \<open>Content-Length\<close>, and the bytes of the file as the body; when the size
  reported is the number of bytes of the file, \<open>Content-Length\<close> is the length of the
  body.
\<close>

theorem C4_serve_file:
  "\<not> sublist ''..'' p \<Longrightarrow>
     resolve ''/'' = ''./index.html'' \<and>
     (p \<noteq> ''/'' \<and> length p \<le> 510 \<longrightarrow> resolve p = ''.'' @ p) \<and>
     (fs (resolve p) = None \<longrightarrow>
        serve_file fs p = Open (resolve p) # send_error 404 ''Not Found'' \<and>
        parse_response (wire (serve_file fs p)) = Some (error_page ''404'' ''Not Found'')) \<and>
     (\<forall>f. fs (resolve p) = Some f \<longrightarrow>
        opened (serve_file fs p) = [resolve p] \<and>
        parse_response (wire (serve_file fs p)) = Some (file_page (get_mime_type (resolve p)) f) \<and>
        status_code (file_page (get_mime_type (resolve p)) f) = ''200'' \<and>
        header_field ''Content-Type'' (file_page (get_mime_type (resolve p)) f) =
          Some (get_mime_type (resolve p)) \<and>
        header_field ''Content-Length'' (file_page (get_mime_type (resolve p)) f) =
          Some (show_int (sint (st_size f))) \<and>
        rsp_body (file_page (get_mime_type (resolve p)) f) = data f \<and>
        (size_agrees f \<longrightarrow> show_int (sint (st_size f)) = show_nat (length (data f))))"
  by (simp add: resolve_root resolve_short serve_file_missing response_404 opened_serve_file_found
      response_file status_code_file_page content_type_file_page content_length_file_page
      size_agrees_show)
     (simp add: file_page_def)


text \<open>
  An instance of claim C4: a document root that holds \<open>index.html\<close> with the five bytes
  \<open>hello\<close>; the path \<open>/\<close> is answered with them, the path \<open>/missing.txt\<close> with 404.
\<close>

theorem C4_serve_file_witness:
  "\<not> sublist ''..'' ''/'' \<and>
   (\<lambda>q. if q = ''./index.html'' then Some \<lparr>st_size = 5, data = ''hello''\<rparr> else None)
      (resolve ''/'') = Some \<lparr>st_size = 5, data = ''hello''\<rparr> \<and>
   opened (serve_file
      (\<lambda>q. if q = ''./index.html'' then Some \<lparr>st_size = 5, data = ''hello''\<rparr> else None) ''/'') =
     [''./index.html''] \<and>
   parse_response (wire (serve_file
      (\<lambda>q. if q = ''./index.html'' then Some \<lparr>st_size = 5, data = ''hello''\<rparr> else None) ''/'')) =
     Some \<lparr>rsp_status = ''HTTP/1.1 200 OK'',
           rsp_headers = [''Content-Type: text/html'', ''Content-Length: 5'', ''Connection: close''],
           rsp_body = ''hello''\<rparr> \<and>
   \<not> sublist ''..'' ''/missing.txt'' \<and>
   parse_response (wire (serve_file
      (\<lambda>q. if q = ''./index.html'' then Some \<lparr>st_size = 5, data = ''hello''\<rparr> else None)
      ''/missing.txt'')) =
     Some (error_page ''404'' ''Not Found'')"
proof -
  let ?fs = "\<lambda>q. if q = ''./index.html'' then Some \<lparr>st_size = 5, data = ''hello''\<rparr> else None"
  have h: "\<not> sublist ''..'' ''/''" by code_simp
  have h': "\<not> sublist ''..'' ''/missing.txt''" by code_simp
  have r: "resolve ''/'' = ''./index.html''" by (simp add: resolve_def)
  have r': "resolve ''/missing.txt'' = ''./missing.txt''" by (simp add: resolve_def)
  have v: "file_page (get_mime_type ''./index.html'') \<lparr>st_size = 5, data = ''hello''\<rparr> =
     \<lparr>rsp_status = ''HTTP/1.1 200 OK'',
      rsp_headers = [''Content-Type: text/html'', ''Content-Length: 5'', ''Connection: close''],
      rsp_body = ''hello''\<rparr>"
    by code_simp
  have fsr: "?fs (resolve ''/'') = Some \<lparr>st_size = 5, data = ''hello''\<rparr>"
    by (simp add: r)
  have fsm: "?fs (resolve ''/missing.txt'') = None"
    by (simp add: r')
  from C4_serve_file[OF h, of ?fs] fsr
  have A: "opened (serve_file ?fs ''/'') = [resolve ''/''] \<and>
      parse_response (wire (serve_file ?fs ''/'')) =
        Some (file_page (get_mime_type (resolve ''/'')) \<lparr>st_size = 5, data = ''hello''\<rparr>)"
    by blast
  from C4_serve_file[OF h', of ?fs] fsm
  have B: "parse_response (wire (serve_file ?fs ''/missing.txt'')) =
      Some (error_page ''404'' ''Not Found'')"
    by blast
  show ?thesis
    using h h' fsr A B unfolding r v by blast
qed


lemma close_sock_send_error [simp]: "count_list (send_error c m) Close_sock = 0"
  by (simp add: send_error_def send_response_def Let_def)

lemma close_sock_stream_loop [simp]: "count_list (stream_loop d) Close_sock = 0"
  using stream_loop_only_writes[of Close_sock d] by (auto simp: count_list_0_iff)

lemma count_list_append': "count_list (xs @ ys) x = count_list xs x + count_list ys x"
  by (induction xs) auto

lemma close_sock_serve_file [simp]: "count_list (serve_file fs p) Close_sock = 0"
proof (cases "sublist ''..'' p")
  case True
  then show ?thesis by (simp add: serve_file_forbidden)
next
  case False
  then show ?thesis
    by (cases "fs (resolve p)")
       (simp_all add: serve_file_missing serve_file_found count_list_append')
qed


subsection \<open>Status codes and content length\<close>

lemma wire_Printf [simp]: "wire (Printf l # es) = wire es"
  by simp

lemma handle_client_400:
  assumes "bytes \<noteq> []"
    and "request_line bytes = None \<or>
         (\<exists>line. request_line bytes = Some line \<and> fst (parse_http_request line req) \<noteq> 0)"
  shows "parse_response (wire (handle_client req addr fs (Some bytes))) =
           Some (error_page ''400'' ''Bad Request'')"
  using assms(2) unfolding handle_client_data[OF assms(1)]
  by (auto simp: response_400 split: prod.splits)

lemma handle_client_501:
  assumes "bytes \<noteq> []" "request_line bytes = Some line"
    "parse_http_request line req = (0, r)" "http_method r \<noteq> ''GET''"
  shows "parse_response (wire (handle_client req addr fs (Some bytes))) =
           Some (error_page ''501'' ''Not Implemented'')"
  using assms(2-) unfolding handle_client_data[OF assms(1)]
  by (simp add: response_501)

lemma handle_client_GET:
  assumes "bytes \<noteq> []" "request_line bytes = Some line"
    "parse_http_request line req = (0, r)" "http_method r = ''GET''"
  shows "wire (handle_client req addr fs (Some bytes)) = wire (serve_file fs (path r))"
    and "opened (handle_client req addr fs (Some bytes)) = opened (serve_file fs (path r))"
  using assms(2-) unfolding handle_client_data[OF assms(1)]
  by simp_all



lemmas eval_request_line =
  request_line_def BUFFER_SIZE_def c_str_def NUL_def strtok_def CRLF_def

text \<open>
  Claim C7. Whatever \<open>handle_client\<close> receives, either it writes nothing, or the client
  reads a response whose status code is 200, 400, 403, 404 or 501 (so none has 500).
  The code is 400 when there is no request line or the parser fails on it; after a
  successful parse it is 501 when the method is not exactly \<open>GET\<close>, and for \<open>GET\<close> it is
  403 when the path contains \<open>..\<close>, 404 when the resolved path cannot be opened, and 200
  with the file otherwise.
\<close>

theorem C7_status_codes:
  "(wire (handle_client req addr fs incoming) = [] \<or>
    (\<exists>rsp. parse_response (wire (handle_client req addr fs incoming)) = Some rsp \<and>
       status_code rsp \<in> {''200'', ''400'', ''403'', ''404'', ''501''})) \<and>
   (\<forall>bytes. incoming = Some bytes \<and> bytes \<noteq> [] \<and>
      (request_line bytes = None \<or>
       (\<exists>line. request_line bytes = Some line \<and> fst (parse_http_request line req) \<noteq> 0)) \<longrightarrow>
      parse_response (wire (handle_client req addr fs incoming)) =
        Some (error_page ''400'' ''Bad Request'')) \<and>
   (\<forall>bytes line r. incoming = Some bytes \<and> bytes \<noteq> [] \<and> request_line bytes = Some line \<and>
      parse_http_request line req = (0, r) \<longrightarrow>
      (http_method r \<noteq> ''GET'' \<longrightarrow>
         parse_response (wire (handle_client req addr fs incoming)) =
           Some (error_page ''501'' ''Not Implemented'')) \<and>
      (http_method r = ''GET'' \<and> sublist ''..'' (path r) \<longrightarrow>
         parse_response (wire (handle_client req addr fs incoming)) =
           Some (error_page ''403'' ''Forbidden'')) \<and>
      (http_method r = ''GET'' \<and> \<not> sublist ''..'' (path r) \<and> fs (resolve (path r)) = None \<longrightarrow>
         parse_response (wire (handle_client req addr fs incoming)) =
           Some (error_page ''404'' ''Not Found'')) \<and>
      (\<forall>f. http_method r = ''GET'' \<and> \<not> sublist ''..'' (path r) \<and>
           fs (resolve (path r)) = Some f \<longrightarrow>
         parse_response (wire (handle_client req addr fs incoming)) =
           Some (file_page (get_mime_type (resolve (path r))) f))) \<and>
   status_code (error_page ''400'' ''Bad Request'') = ''400'' \<and>
   status_code (error_page ''403'' ''Forbidden'') = ''403'' \<and>
   status_code (error_page ''404'' ''Not Found'') = ''404'' \<and>
   status_code (error_page ''501'' ''Not Implemented'') = ''501'' \<and>
   status_code (file_page t g) = ''200''"
proof -
  have codes: "wire (handle_client req addr fs incoming) = [] \<or>
    (\<exists>rsp. parse_response (wire (handle_client req addr fs incoming)) = Some rsp \<and>
       status_code rsp \<in> {''200'', ''400'', ''403'', ''404'', ''501''})"
  proof (cases rule: handle_client_cases[of incoming req addr fs])
    case no_data
    then show ?thesis by simp
  next
    case (bad_request bytes)
    then show ?thesis by (simp add: response_400 status_code_error_page)
  next
    case (not_implemented bytes line r)
    then show ?thesis by (simp add: response_501 status_code_error_page)
  next
    case (forbidden bytes line r)
    then show ?thesis by (simp add: response_403 status_code_error_page)
  next
    case (not_found bytes line r)
    then show ?thesis by (simp add: response_404 status_code_error_page)
  next
    case (served bytes line r f)
    then show ?thesis by (simp add: status_code_file_page)
  qed
  have bad: "\<forall>bytes. incoming = Some bytes \<and> bytes \<noteq> [] \<and>
      (request_line bytes = None \<or>
       (\<exists>line. request_line bytes = Some line \<and> fst (parse_http_request line req) \<noteq> 0)) \<longrightarrow>
      parse_response (wire (handle_client req addr fs incoming)) =
        Some (error_page ''400'' ''Bad Request'')"
    using handle_client_400[of _ req addr fs] by blast
  have parsed: "\<forall>bytes line r. incoming = Some bytes \<and> bytes \<noteq> [] \<and> request_line bytes = Some line \<and>
      parse_http_request line req = (0, r) \<longrightarrow>
      (http_method r \<noteq> ''GET'' \<longrightarrow>
         parse_response (wire (handle_client req addr fs incoming)) =
           Some (error_page ''501'' ''Not Implemented'')) \<and>
      (http_method r = ''GET'' \<and> sublist ''..'' (path r) \<longrightarrow>
         parse_response (wire (handle_client req addr fs incoming)) =
           Some (error_page ''403'' ''Forbidden'')) \<and>
      (http_method r = ''GET'' \<and> \<not> sublist ''..'' (path r) \<and> fs (resolve (path r)) = None \<longrightarrow>
         parse_response (wire (handle_client req addr fs incoming)) =
           Some (error_page ''404'' ''Not Found'')) \<and>
      (\<forall>f. http_method r = ''GET'' \<and> \<not> sublist ''..'' (path r) \<and>
           fs (resolve (path r)) = Some f \<longrightarrow>
         parse_response (wire (handle_client req addr fs incoming)) =
           Some (file_page (get_mime_type (resolve (path r))) f))"
  proof (intro allI impI, elim conjE)
    fix bytes line r
    assume a: "incoming = Some bytes" "bytes \<noteq> []" "request_line bytes = Some line"
      "parse_http_request line req = (0, r)"
    have g: "http_method r = ''GET'' \<Longrightarrow>
        wire (handle_client req addr fs incoming) = wire (serve_file fs (path r))"
      unfolding a(1) using a(2-) by (rule handle_client_GET(1))
    show "(http_method r \<noteq> ''GET'' \<longrightarrow>
         parse_response (wire (handle_client req addr fs incoming)) =
           Some (error_page ''501'' ''Not Implemented'')) \<and>
      (http_method r = ''GET'' \<and> sublist ''..'' (path r) \<longrightarrow>
         parse_response (wire (handle_client req addr fs incoming)) =
           Some (error_page ''403'' ''Forbidden'')) \<and>
      (http_method r = ''GET'' \<and> \<not> sublist ''..'' (path r) \<and> fs (resolve (path r)) = None \<longrightarrow>
         parse_response (wire (handle_client req addr fs incoming)) =
           Some (error_page ''404'' ''Not Found'')) \<and>
      (\<forall>f. http_method r = ''GET'' \<and> \<not> sublist ''..'' (path r) \<and>
           fs (resolve (path r)) = Some f \<longrightarrow>
         parse_response (wire (handle_client req addr fs incoming)) =
           Some (file_page (get_mime_type (resolve (path r))) f))"
      using handle_client_501[OF a(2,3,4), of addr fs] g a(1)
        wire_serve_file_forbidden[of "path r" fs] wire_serve_file_missing[of "path r" fs]
        response_file[of "path r" fs]
      by auto
  qed
  show ?thesis
    using codes bad parsed
    by (simp add: status_code_error_page status_code_file_page)
qed


text \<open>
  An instance of claim C7: the request line \<open>POST /x HTTP/1.1\<close> is answered with 501.
\<close>

theorem C7_status_codes_witness:
  "request_line (''POST /x HTTP/1.1'' @ CRLF) = Some ''POST /x HTTP/1.1'' \<and>
   parse_http_request ''POST /x HTTP/1.1'' \<lparr>http_method = [], path = [], version = []\<rparr> =
     (0, \<lparr>http_method = ''POST'', path = ''/x'', version = ''HTTP/1.1''\<rparr>) \<and>
   parse_response (wire (handle_client \<lparr>http_method = [], path = [], version = []\<rparr>
       ''192.0.2.1'' (\<lambda>q. None) (Some (''POST /x HTTP/1.1'' @ CRLF)))) =
     Some (error_page ''501'' ''Not Implemented'') \<and>
   status_code (error_page ''501'' ''Not Implemented'') = ''501''"
proof -
  let ?req = "\<lparr>http_method = [], path = [], version = []\<rparr>"
  let ?bytes = "''POST /x HTTP/1.1'' @ CRLF"
  have ne: "?bytes \<noteq> []" by simp
  have l: "request_line ?bytes = Some ''POST /x HTTP/1.1''" by (simp add: eval_request_line)
  have p: "parse_http_request ''POST /x HTTP/1.1'' ?req =
     (0, \<lparr>http_method = ''POST'', path = ''/x'', version = ''HTTP/1.1''\<rparr>)"
    by code_simp
  have m: "http_method \<lparr>http_method = ''POST'', path = ''/x'', version = ''HTTP/1.1''\<rparr> \<noteq> ''GET''"
    by simp
  from C7_status_codes[of ?req "''192.0.2.1''" "\<lambda>q. None" "Some ?bytes"]
  have "\<forall>bytes line r. Some ?bytes = Some bytes \<and> bytes \<noteq> [] \<and> request_line bytes = Some line \<and>
      parse_http_request line ?req = (0, r) \<longrightarrow>
      (http_method r \<noteq> ''GET'' \<longrightarrow>
         parse_response (wire (handle_client ?req ''192.0.2.1'' (\<lambda>q. None) (Some ?bytes))) =
           Some (error_page ''501'' ''Not Implemented''))"
    and "status_code (error_page ''501'' ''Not Implemented'') = ''501''"
    by blast+
  with ne l p m show ?thesis by blast
qed





subsection \<open>Error pages\<close>

lemma send_error_verbatim:
  assumes "length (error_body (show_int c) m) \<le> 511"
  shows "\<exists>h. send_error c m = [Write h, Write (error_body (show_int c) m)]"
proof -
  define b where "b = error_body (show_int c) m"
  have fit: "take 511 b = b" using assms unfolding b_def by (rule take_all)
  have eq: "''<html><body><h1>'' @ show_int c @ '' '' @ m @
             ''</h1><p>'' @ m @ ''</p></body></html>'' = b"
    unfolding b_def error_body_def by (rule refl)
  have snp: "snprintf 512 b = b" using fit by (simp add: snprintf_def)
  have "\<exists>h. send_error c m = [Write h, Write b]"
    unfolding send_error_def Let_def eq snp send_response_def strlen_def by simp
  then show ?thesis unfolding b_def .
qed

lemma error_body_embeds:
  "sublist code (error_body code msg) \<and> sublist msg (error_body code msg)"
proof
  show "sublist code (error_body code msg)"
    unfolding error_body_def by (rule sublist_appendI)
  have "error_body code msg =
      (''<html><body><h1>'' @ code @ '' '') @ msg @ (''</h1><p>'' @ msg @ ''</p></body></html>'')"
    by (simp add: error_body_def)
  then show "sublist msg (error_body code msg)"
    by (simp only: sublist_appendI)
qed

lemma parse_response_Nil: "parse_response [] = None"
  by (simp add: parse_response_def)

text \<open>
  Claim C10. Each of the four error responses (400, 403, 404, 501) is read by the client
  as the error page of its code and message: content type \<open>text/html\<close> and the body
  \<open><html><body><h1>code message</h1><p>message</p></body></html>\<close>, which contains the
  code and the message as they are. \<open>send_error\<close> copies any message unchanged into the
  body as long as the body fits its buffer of 512 bytes. Every response of
  \<open>handle_client\<close> whose status is not 200 is one of these four pages. For a path without
  \<open>..\<close> that cannot be opened, \<open>serve_file\<close> sends the 404 page, whose body contains
  \<open>404\<close> and \<open>Not Found\<close>.
\<close>

theorem C10_error_pages:
  "parse_response (wire (send_error 400 ''Bad Request'')) = Some (error_page ''400'' ''Bad Request'') \<and>
   parse_response (wire (send_error 403 ''Forbidden'')) = Some (error_page ''403'' ''Forbidden'') \<and>
   parse_response (wire (send_error 404 ''Not Found'')) = Some (error_page ''404'' ''Not Found'') \<and>
   parse_response (wire (send_error 501 ''Not Implemented'')) =
     Some (error_page ''501'' ''Not Implemented'') \<and>
   header_field ''Content-Type'' (error_page code msg) = Some ''text/html'' \<and>
   rsp_body (error_page code msg) =
     ''<html><body><h1>'' @ code @ '' '' @ msg @ ''</h1><p>'' @ msg @ ''</p></body></html>'' \<and>
   sublist code (rsp_body (error_page code msg)) \<and>
   sublist msg (rsp_body (error_page code msg)) \<and>
   (length (error_body (show_int c) m) \<le> 511 \<longrightarrow>
      (\<exists>h. send_error c m = [Write h, Write (error_body (show_int c) m)])) \<and>
   (\<forall>rsp. parse_response (wire (handle_client req addr fs incoming)) = Some rsp \<and>
      status_code rsp \<noteq> ''200'' \<longrightarrow>
      rsp \<in> {error_page ''400'' ''Bad Request'', error_page ''403'' ''Forbidden'',
             error_page ''404'' ''Not Found'', error_page ''501'' ''Not Implemented''}) \<and>
   (\<not> sublist ''..'' p \<and> fs (resolve p) = None \<longrightarrow>
      parse_response (wire (serve_file fs p)) = Some (error_page ''404'' ''Not Found'') \<and>
      sublist ''404'' (rsp_body (error_page ''404'' ''Not Found'')) \<and>
      sublist ''Not Found'' (rsp_body (error_page ''404'' ''Not Found'')))"
proof -
  have body: "rsp_body (error_page code msg) = error_body code msg" for code msg
    by (simp add: error_page_def)
  have handler: "\<forall>rsp. parse_response (wire (handle_client req addr fs incoming)) = Some rsp \<and>
      status_code rsp \<noteq> ''200'' \<longrightarrow>
      rsp \<in> {error_page ''400'' ''Bad Request'', error_page ''403'' ''Forbidden'',
             error_page ''404'' ''Not Found'', error_page ''501'' ''Not Implemented''}"
  proof (cases rule: handle_client_cases[of incoming req addr fs])
    case no_data
    then show ?thesis by (simp add: parse_response_Nil)
  next
    case (bad_request bytes)
    then show ?thesis by (simp add: response_400)
  next
    case (not_implemented bytes line r)
    then show ?thesis by (simp add: response_501)
  next
    case (forbidden bytes line r)
    then show ?thesis by (simp add: response_403)
  next
    case (not_found bytes line r)
    then show ?thesis by (simp add: response_404)
  next
    case (served bytes line r f)
    then show ?thesis by (simp add: status_code_file_page)
  qed
  have missing: "\<not> sublist ''..'' p \<and> fs (resolve p) = None \<longrightarrow>
      parse_response (wire (serve_file fs p)) = Some (error_page ''404'' ''Not Found'') \<and>
      sublist ''404'' (rsp_body (error_page ''404'' ''Not Found'')) \<and>
      sublist ''Not Found'' (rsp_body (error_page ''404'' ''Not Found''))"
    using wire_serve_file_missing[of p fs] error_body_embeds[of "''404''" "''Not Found''"]
    by (simp add: body)
  show ?thesis
    using handler missing send_error_verbatim[of c m] error_body_embeds[of code msg]
    by (simp add: response_400 response_403 response_404 response_501 content_type_error_page
        body) (simp add: error_body_def)
qed

text \<open>
  An instance of claim C10: an empty document root and the path \<open>/nothing.html\<close>.
\<close>

theorem C10_error_pages_witness:
  "\<not> sublist ''..'' ''/nothing.html'' \<and>
   parse_response (wire (serve_file (\<lambda>q. None) ''/nothing.html'')) =
     Some (error_page ''404'' ''Not Found'') \<and>
   rsp_body (error_page ''404'' ''Not Found'') =
     ''<html><body><h1>404 Not Found</h1><p>Not Found</p></body></html>'' \<and>
   sublist ''404'' (rsp_body (error_page ''404'' ''Not Found'')) \<and>
   sublist ''Not Found'' (rsp_body (error_page ''404'' ''Not Found''))"
proof -
  have h: "\<not> sublist ''..'' ''/nothing.html''" by code_simp
  have b: "rsp_body (error_page ''404'' ''Not Found'') =
     ''<html><body><h1>404 Not Found</h1><p>Not Found</p></body></html>''"
    by (simp add: error_page_def error_body_def)
  from C10_error_pages[of "''404''" "''Not Found''" 404 "''Not Found''"
      "\<lparr>http_method = [], path = [], version = []\<rparr>" "''192.0.2.1''" "\<lambda>q. None" None
      "''/nothing.html''"] h
  have "parse_response (wire (serve_file (\<lambda>q. None) ''/nothing.html'')) =
      Some (error_page ''404'' ''Not Found'') \<and>
    sublist ''404'' (rsp_body (error_page ''404'' ''Not Found'')) \<and>
    sublist ''Not Found'' (rsp_body (error_page ''404'' ''Not Found''))"
    by blast
  with h b show ?thesis by blast
qed

subsection \<open>The line handed to the parser\<close>

lemma c_str_terminated: "c_str (b @ [NUL]) = c_str b"
  by (induction b) (auto simp: c_str_def)

lemma strtok_None_iff: "strtok s d = None \<longleftrightarrow> set s \<subseteq> set d"
  by (auto simp: strtok_def Let_def dropWhile_eq_Nil_conv)

lemma request_line_None_iff:
  "request_line bytes = None \<longleftrightarrow>
     set (c_str (take (BUFFER_SIZE - 1) bytes)) \<subseteq> {CHR 0x0D, CHR 0x0A}"
  by (simp add: request_line_def strtok_None_iff c_str_terminated)

lemma c_str_tail:
  assumes "rest = [] \<or> hd rest \<in> {CHR 0x0D, CHR 0x0A, NUL}"
  shows "takeWhile (\<lambda>c. c \<notin> set [CHR 0x0D, CHR 0x0A]) (c_str (rest @ [NUL])) = []"
proof (cases rest)
  case Nil
  then show ?thesis by (simp add: c_str_def)
next
  case (Cons c cs)
  with assms have "c = CHR 0x0D \<or> c = CHR 0x0A \<or> c = NUL" by simp
  with Cons show ?thesis by (auto simp: c_str_def NUL_def)
qed

lemma request_line_isolates:
  assumes "take (BUFFER_SIZE - 1) bytes = pre @ line @ rest"
    and "set pre \<subseteq> {CHR 0x0D, CHR 0x0A}"
    and "line \<noteq> []"
    and "set line \<inter> {CHR 0x0D, CHR 0x0A, NUL} = {}"
    and "rest = [] \<or> hd rest \<in> {CHR 0x0D, CHR 0x0A, NUL}"
  shows "request_line bytes = Some line"
proof -
  let ?X = "c_str (rest @ [NUL])"
  have pre_nul: "\<forall>x \<in> set pre. x \<noteq> NUL" using assms(2) by (auto simp: NUL_def)
  have line_nul: "\<forall>x \<in> set line. x \<noteq> NUL" using assms(4) by auto
  have cs: "c_str ((pre @ line @ rest) @ [NUL]) = pre @ line @ ?X"
    using pre_nul line_nul by (simp add: c_str_def takeWhile_append2)
  obtain a as where line: "line = a # as" using assms(3) by (cases line) auto
  have a: "a \<notin> set [CHR 0x0D, CHR 0x0A]" using assms(4) line by auto
  have dw: "dropWhile (\<lambda>c. c \<in> set [CHR 0x0D, CHR 0x0A]) (pre @ line @ ?X) = line @ ?X"
    using assms(2) a line by (simp add: dropWhile_append2 subset_iff)
  have "\<forall>x \<in> set line. x \<notin> set [CHR 0x0D, CHR 0x0A]" using assms(4) by auto
  then have tw: "takeWhile (\<lambda>c. c \<notin> set [CHR 0x0D, CHR 0x0A]) (line @ ?X) = line"
    using c_str_tail[OF assms(5)] by (simp add: takeWhile_append2)
  have "strtok (pre @ line @ ?X) [CHR 0x0D, CHR 0x0A] = Some line"
    unfolding strtok_def Let_def dw tw using line by simp
  then show ?thesis unfolding request_line_def assms(1) cs .
qed

lemma handle_client_isolates:
  assumes "take (BUFFER_SIZE - 1) bytes = pre @ line @ rest"
    and "set pre \<subseteq> {CHR 0x0D, CHR 0x0A}"
    and "line \<noteq> []"
    and "set line \<inter> {CHR 0x0D, CHR 0x0A, NUL} = {}"
    and "rest = [] \<or> hd rest \<in> {CHR 0x0D, CHR 0x0A, NUL}"
  shows "handle_client req addr fs (Some bytes) = handle_client req addr fs (Some line)"
proof -
  have ne: "bytes \<noteq> []" using assms(1,3) by auto
  have "length (pre @ line @ rest) \<le> BUFFER_SIZE - 1"
    unfolding assms(1)[symmetric] by simp
  then have fit: "take (BUFFER_SIZE - 1) line = line" by simp
  have rl: "request_line line = Some line"
    using request_line_isolates[of line "[]" line "[]"] fit assms(3,4) by simp
  have rb: "request_line bytes = Some line"
    using assms by (rule request_line_isolates)
  show ?thesis
    unfolding handle_client_data[OF ne] handle_client_data[OF assms(3)]
    by (simp only: rl rb)
qed

lemma first_line_clean:
  assumes "NUL \<notin> set (first_line_spec b)"
  shows "set (first_line_spec b) \<inter> {CHR 0x0D, CHR 0x0A, NUL} = {}"
proof -
  have "x \<noteq> CHR 0x0D \<and> x \<noteq> CHR 0x0A" if "x \<in> set (first_line_spec b)" for x
    using that unfolding first_line_spec_def by (rule set_takeWhileD[THEN conjunct2])
  with assms show ?thesis by blast
qed

lemma first_line_tail:
  "dropWhile (\<lambda>c. c \<noteq> CHR 0x0D \<and> c \<noteq> CHR 0x0A) b = [] \<or>
   hd (dropWhile (\<lambda>c. c \<noteq> CHR 0x0D \<and> c \<noteq> CHR 0x0A) b) \<in> {CHR 0x0D, CHR 0x0A, NUL}"
  using hd_dropWhile[of "\<lambda>c. c \<noteq> CHR 0x0D \<and> c \<noteq> CHR 0x0A" b] by blast

lemma first_line_split:
  "b = [] @ first_line_spec b @ dropWhile (\<lambda>c. c \<noteq> CHR 0x0D \<and> c \<noteq> CHR 0x0A) b"
  unfolding first_line_spec_def append_Nil by (rule takeWhile_dropWhile_id[symmetric])

lemma request_line_first_line:
  assumes "first_line_spec (take (BUFFER_SIZE - 1) bytes) \<noteq> []"
    and "NUL \<notin> set (first_line_spec (take (BUFFER_SIZE - 1) bytes))"
  shows "request_line bytes = Some (first_line_spec (take (BUFFER_SIZE - 1) bytes))"
proof -
  have "set [] \<subseteq> {CHR 0x0D, CHR 0x0A}" by simp
  with first_line_split[of "take (BUFFER_SIZE - 1) bytes"] show ?thesis
    using assms(1) first_line_clean[OF assms(2)] first_line_tail
    by (rule request_line_isolates)
qed

text \<open>
  Claim C5, as the code has it. When data is received, \<open>handle_client\<close> passes to
  \<open>parse_http_request\<close> the line \<open>request_line bytes\<close>. Among the first 8191 bytes received
  (\<open>BUFFER_SIZE - 1\<close>: the rest is not read), it skips the CR and LF bytes at the start
  and takes the bytes after them up to the next CR, LF or NUL byte or the end; the
  handler then does what it does when it receives that line alone. So when the first
  line of the received bytes is not empty and has no NUL byte in it, that first line
  is parsed. There is no line to parse exactly when the received bytes before the
  first NUL are all CR or LF, and then the answer is 400.
\<close>

theorem C5_first_nonempty_line:
  "(bytes \<noteq> [] \<longrightarrow>
      handle_client req addr fs (Some bytes) =
        (case request_line bytes of
           None \<Rightarrow> send_error 400 ''Bad Request''
         | Some line \<Rightarrow>
             (case parse_http_request line req of
                (rc, r) \<Rightarrow>
                  if rc = 0 then
                    Printf (''['' @ addr @ ''] '' @ http_method r @ '' '' @ path r @ [CHR 0x0A]) #
                    (if http_method r = ''GET'' then serve_file fs (path r)
                     else send_error 501 ''Not Implemented'')
                  else send_error 400 ''Bad Request'')) @
        [Close_sock, Exit 0]) \<and>
   (take (BUFFER_SIZE - 1) bytes = pre @ line @ rest \<and>
    set pre \<subseteq> {CHR 0x0D, CHR 0x0A} \<and>
    line \<noteq> [] \<and> set line \<inter> {CHR 0x0D, CHR 0x0A, NUL} = {} \<and>
    (rest = [] \<or> hd rest \<in> {CHR 0x0D, CHR 0x0A, NUL}) \<longrightarrow>
      request_line bytes = Some line \<and>
      handle_client req addr fs (Some bytes) = handle_client req addr fs (Some line)) \<and>
   (first_line_spec (take (BUFFER_SIZE - 1) bytes) \<noteq> [] \<and>
    NUL \<notin> set (first_line_spec (take (BUFFER_SIZE - 1) bytes)) \<longrightarrow>
      request_line bytes = Some (first_line_spec (take (BUFFER_SIZE - 1) bytes))) \<and>
   (request_line bytes = None \<longleftrightarrow>
      set (c_str (take (BUFFER_SIZE - 1) bytes)) \<subseteq> {CHR 0x0D, CHR 0x0A})"
  using handle_client_data[of bytes req addr fs]
    request_line_isolates[of bytes pre line rest]
    handle_client_isolates[of bytes pre line rest req addr fs]
    request_line_first_line[of bytes]
    request_line_None_iff[of bytes]
  by blast

text \<open>
  An instance of claim C5: an empty line, the request line, and a header line after it.
\<close>

theorem C5_first_nonempty_line_witness:
  "take (BUFFER_SIZE - 1) (CRLF @ ''GET / HTTP/1.1'' @ CRLF @ ''Host: example.org'' @ CRLF @ CRLF) =
     CRLF @ ''GET / HTTP/1.1'' @ (CRLF @ ''Host: example.org'' @ CRLF @ CRLF) \<and>
   request_line (CRLF @ ''GET / HTTP/1.1'' @ CRLF @ ''Host: example.org'' @ CRLF @ CRLF) =
     Some ''GET / HTTP/1.1'' \<and>
   handle_client \<lparr>http_method = [], path = [], version = []\<rparr> ''192.0.2.1'' (\<lambda>q. None)
       (Some (CRLF @ ''GET / HTTP/1.1'' @ CRLF @ ''Host: example.org'' @ CRLF @ CRLF)) =
     handle_client \<lparr>http_method = [], path = [], version = []\<rparr> ''192.0.2.1'' (\<lambda>q. None)
       (Some ''GET / HTTP/1.1'')"
proof -
  let ?bytes = "CRLF @ ''GET / HTTP/1.1'' @ CRLF @ ''Host: example.org'' @ CRLF @ CRLF"
  have t: "take (BUFFER_SIZE - 1) ?bytes =
      CRLF @ ''GET / HTTP/1.1'' @ (CRLF @ ''Host: example.org'' @ CRLF @ CRLF)"
    by (simp add: BUFFER_SIZE_def CRLF_def)
  have p: "set CRLF \<subseteq> {CHR 0x0D, CHR 0x0A}" by (simp add: CRLF_def)
  have n: "''GET / HTTP/1.1'' \<noteq> []" by simp
  have c: "set ''GET / HTTP/1.1'' \<inter> {CHR 0x0D, CHR 0x0A, NUL} = {}" by (simp add: NUL_def)
  have r: "CRLF @ ''Host: example.org'' @ CRLF @ CRLF = [] \<or>
      hd (CRLF @ ''Host: example.org'' @ CRLF @ CRLF) \<in> {CHR 0x0D, CHR 0x0A, NUL}"
    by (simp add: CRLF_def)
  from C5_first_nonempty_line[of ?bytes "\<lparr>http_method = [], path = [], version = []\<rparr>"
      "''192.0.2.1''" "\<lambda>q. None" CRLF "''GET / HTTP/1.1''"
      "CRLF @ ''Host: example.org'' @ CRLF @ CRLF"] t p n c r
  show ?thesis by blast
qed

text \<open>
  Claim C5 as stated fails for received bytes that start with CR LF. Their first line
  is empty, and parsing the empty line fails, which would be answered with 400; but
  \<open>strtok\<close> skips the delimiters at the start, so the handler parses the second line,
  logs the request \<open>GET /\<close> and answers it (here with 404, the document root being
  empty).
\<close>

theorem C5_empty_first_line_counterexample:
  "first_line_spec (CRLF @ ''GET / HTTP/1.1'' @ CRLF) = [] \<and>
   parse_http_request [] \<lparr>http_method = [], path = [], version = []\<rparr> =
     (- 1, \<lparr>http_method = [], path = [], version = []\<rparr>) \<and>
   request_line (CRLF @ ''GET / HTTP/1.1'' @ CRLF) = Some ''GET / HTTP/1.1'' \<and>
   handle_client \<lparr>http_method = [], path = [], version = []\<rparr> ''192.0.2.1'' (\<lambda>q. None)
       (Some (CRLF @ ''GET / HTTP/1.1'' @ CRLF)) =
     Printf (''[192.0.2.1] GET /'' @ [CHR 0x0A]) # Open ''./index.html'' #
     send_error 404 ''Not Found'' @ [Close_sock, Exit 0] \<and>
   parse_response (wire (handle_client \<lparr>http_method = [], path = [], version = []\<rparr>
       ''192.0.2.1'' (\<lambda>q. None) (Some (CRLF @ ''GET / HTTP/1.1'' @ CRLF)))) =
     Some (error_page ''404'' ''Not Found'')"
proof -
  let ?req = "\<lparr>http_method = [], path = [], version = []\<rparr>"
  let ?bytes = "CRLF @ ''GET / HTTP/1.1'' @ CRLF"
  let ?r = "\<lparr>http_method = ''GET'', path = ''/'', version = ''HTTP/1.1''\<rparr>"
  have f: "first_line_spec ?bytes = []" by (simp add: first_line_spec_def CRLF_def)
  have e: "parse_http_request [] ?req = (- 1, ?req)" by code_simp
  have ne: "?bytes \<noteq> []" by (simp add: CRLF_def)
  have l: "request_line ?bytes = Some ''GET / HTTP/1.1''" by (simp add: eval_request_line)
  have p: "parse_http_request ''GET / HTTP/1.1'' ?req = (0, ?r)" by code_simp
  have nd: "\<not> sublist ''..'' ''/''" by code_simp
  have s: "serve_file (\<lambda>q. None) ''/'' = Open ''./index.html'' # send_error 404 ''Not Found''"
    using serve_file_missing[of "''/''" "\<lambda>q. None"] nd by (simp add: resolve_def)
  have h: "handle_client ?req ''192.0.2.1'' (\<lambda>q. None) (Some ?bytes) =
     Printf (''[192.0.2.1] GET /'' @ [CHR 0x0A]) # Open ''./index.html'' #
     send_error 404 ''Not Found'' @ [Close_sock, Exit 0]"
    unfolding handle_client_data[OF ne] l by (simp add: p s)
  have w: "parse_response (wire (handle_client ?req ''192.0.2.1'' (\<lambda>q. None) (Some ?bytes))) =
     Some (error_page ''404'' ''Not Found'')"
    unfolding h by (simp add: response_404)
  from f e l h w show ?thesis by blast
qed

section \<open>Closing the connection\<close>
















end
